theory Spec2Isabelle
  imports Main "HOL-Library.Word" "HOL-Library.AList"
begin

section \<open>Data model\<close>

text \<open>
  A Python \<open>bytes\<close> object is a list of 8-bit words. A Python \<open>str\<close> is a list of
  Unicode code points (natural numbers; Python admits \<open>0 .. 0x10FFFF\<close>, lone surrogates
  included). Python integers are unbounded and modelled as \<open>int\<close>.
\<close>

type_synonym byte = "8 word"
type_synonym bytes = "byte list"
type_synonym pystr = "nat list"

text \<open>
  The exceptions that can leave the engine or the codec. The codec module
  (\<open>pollen/format.py\<close>) is described by the specification with the names \<open>RangeError\<close>,
  \<open>MalformedInputError\<close> and \<open>EncodingError\<close>; the tests of the repository show that
  the first one is Python's \<open>struct.error\<close>. \<open>ValueError\<close> is what Python raises for
  an operation on a closed file and what \<open>__init__\<close> raises when the log cannot be opened;
  \<open>OSError\<close> is a failing write, flush or fsync. \<open>EncodingError\<close> also stands for
  Python's \<open>UnicodeEncodeError\<close> and \<open>UnicodeDecodeError\<close>.
\<close>

datatype error = RangeError | MalformedInputError | EncodingError | ValueError | OSError

subsection \<open>UTF-8 (Python's \<open>str.encode("utf-8")\<close> and \<open>bytes.decode("utf-8")\<close>)\<close>

text \<open>
  One code point to its UTF-8 bytes. Surrogates (\<open>0xD800 .. 0xDFFF\<close>) cannot be encoded:
  Python raises \<open>UnicodeEncodeError\<close>. Numbers above \<open>0x10FFFF\<close> are not code points.
\<close>

definition to_byte :: "nat \<Rightarrow> byte" where
  "to_byte n = of_nat n"

definition encode_cp :: "nat \<Rightarrow> bytes option" where
  "encode_cp c =
     (if c < 0x80 then Some [to_byte c]
      else if c < 0x800 then Some [to_byte (0xC0 + c div 64), to_byte (0x80 + c mod 64)]
      else if 0xD800 \<le> c \<and> c < 0xE000 then None
      else if c < 0x10000 then
        Some [to_byte (0xE0 + c div 4096), to_byte (0x80 + c div 64 mod 64),
              to_byte (0x80 + c mod 64)]
      else if c < 0x110000 then
        Some [to_byte (0xF0 + c div 262144), to_byte (0x80 + c div 4096 mod 64),
              to_byte (0x80 + c div 64 mod 64), to_byte (0x80 + c mod 64)]
      else None)"

fun str_encode :: "pystr \<Rightarrow> error + bytes" where
  "str_encode [] = Inr []"
| "str_encode (c # cs) =
     (case encode_cp c of
        None \<Rightarrow> Inl EncodingError
      | Some bs \<Rightarrow> (case str_encode cs of Inl e \<Rightarrow> Inl e | Inr r \<Rightarrow> Inr (bs @ r)))"

text \<open>A continuation byte is \<open>10xxxxxx\<close>.\<close>

definition is_cont :: "byte \<Rightarrow> bool" where
  "is_cont b = (0x80 \<le> unat b \<and> unat b < 0xC0)"

definition cons_cp :: "nat \<Rightarrow> error + pystr \<Rightarrow> error + pystr" where
  "cons_cp c r = (case r of Inl e \<Rightarrow> Inl e | Inr cs \<Rightarrow> Inr (c # cs))"

text \<open>
  Strict decoding: a truncated sequence, a stray continuation byte, an overlong form, a
  surrogate and a value above \<open>0x10FFFF\<close> all raise \<open>UnicodeDecodeError\<close>.
\<close>

fun bytes_decode :: "bytes \<Rightarrow> error + pystr" where
  "bytes_decode [] = Inr []"
| "bytes_decode (b0 # bs) =
     (let a = unat b0 in
      if a < 0x80 then cons_cp a (bytes_decode bs)
      else if 0xC2 \<le> a \<and> a < 0xE0 then
        (case bs of
           b1 # r \<Rightarrow>
             if is_cont b1
             then cons_cp ((a - 0xC0) * 64 + (unat b1 - 0x80)) (bytes_decode r)
             else Inl EncodingError
         | _ \<Rightarrow> Inl EncodingError)
      else if 0xE0 \<le> a \<and> a < 0xF0 then
        (case bs of
           b1 # b2 # r \<Rightarrow>
             (let c = (a - 0xE0) * 4096 + (unat b1 - 0x80) * 64 + (unat b2 - 0x80) in
              if is_cont b1 \<and> is_cont b2 \<and> 0x800 \<le> c \<and> \<not> (0xD800 \<le> c \<and> c < 0xE000)
              then cons_cp c (bytes_decode r)
              else Inl EncodingError)
         | _ \<Rightarrow> Inl EncodingError)
      else if 0xF0 \<le> a \<and> a < 0xF8 then
        (case bs of
           b1 # b2 # b3 # r \<Rightarrow>
             (let c = (a - 0xF0) * 262144 + (unat b1 - 0x80) * 4096
                      + (unat b2 - 0x80) * 64 + (unat b3 - 0x80) in
              if is_cont b1 \<and> is_cont b2 \<and> is_cont b3 \<and> 0x10000 \<le> c \<and> c < 0x110000
              then cons_cp c (bytes_decode r)
              else Inl EncodingError)
         | _ \<Rightarrow> Inl EncodingError)
      else Inl EncodingError)"

subsection \<open>The record codec (\<open>pollen/format.py\<close>)\<close>

text \<open>
  Modelled from the spec: \<open>pollen/format.py\<close> (\<open>HEADER_SIZE\<close>, \<open>encode_header\<close>,
  \<open>decode_header\<close>, \<open>encode_kv\<close>, \<open>decode_kv\<close>) is imported by \<open>disk_store.py\<close> and
  exercised by \<open>tests/test_format.py\<close>, but its source is not part of the tree. The
  definitions of this subsection follow sections 4.1 and 6 of the specification. "Header
  size is fixed at 12 bytes".
\<close>

definition HEADER_SIZE :: int where
  "HEADER_SIZE = 12"

text \<open>
  Modelled from the spec: a header field "must fit in 32 bits", that is, lie in
  \<open>[0, 2^32 - 1]\<close>.
\<close>

definition in_u32 :: "int \<Rightarrow> bool" where
  "in_u32 n = (0 \<le> n \<and> n < 2 ^ 32)"

text \<open>
  Modelled from the spec: a field is "4 bytes, unsigned, fixed byte order". The
  specification leaves the byte order open as long as it is the same everywhere;
  little-endian is taken here, least significant byte first.
\<close>

definition u32_bytes :: "nat \<Rightarrow> bytes" where
  "u32_bytes n =
     [to_byte (n mod 256), to_byte (n div 256 mod 256),
      to_byte (n div 65536 mod 256), to_byte (n div 16777216 mod 256)]"

text \<open>Modelled from the spec: the value of a field of four bytes, read the same way.\<close>

fun u32_value :: "bytes \<Rightarrow> nat" where
  "u32_value [b0, b1, b2, b3] =
     unat b0 + 256 * unat b1 + 65536 * unat b2 + 16777216 * unat b3"
| "u32_value _ = 0"

text \<open>
  Modelled from the spec: \<open>encode_header\<close> "fails with a RangeError if any input does not
  fit in 32 bits unsigned".
\<close>

definition encode_header :: "int \<Rightarrow> int \<Rightarrow> int \<Rightarrow> error + bytes" where
  "encode_header timestamp key_size value_size =
     (if in_u32 timestamp \<and> in_u32 key_size \<and> in_u32 value_size
      then Inr (u32_bytes (nat timestamp) @ u32_bytes (nat key_size)
                @ u32_bytes (nat value_size))
      else Inl RangeError)"

text \<open>
  Modelled from the spec: \<open>decode_header\<close> "requires the input to be exactly HEADER_SIZE
  bytes" and "fails with a MalformedInputError on wrong length".
\<close>

definition decode_header :: "bytes \<Rightarrow> error + (int \<times> int \<times> int)" where
  "decode_header data =
     (if int (length data) \<noteq> HEADER_SIZE then Inl MalformedInputError
      else Inr (int (u32_value (take 4 data)),
                int (u32_value (take 4 (drop 4 data))),
                int (u32_value (take 4 (drop 8 data)))))"

text \<open>
  Modelled from the spec: \<open>encode_kv\<close> takes the UTF-8 byte lengths of key and value,
  builds the header and returns the total size with header, key bytes and value bytes
  concatenated.
\<close>

definition encode_kv :: "int \<Rightarrow> pystr \<Rightarrow> pystr \<Rightarrow> error + (int \<times> bytes)" where
  "encode_kv timestamp key val =
     (case str_encode key of
        Inl e \<Rightarrow> Inl e
      | Inr key_bytes \<Rightarrow>
          (case str_encode val of
             Inl e \<Rightarrow> Inl e
           | Inr value_bytes \<Rightarrow>
               (let key_size = int (length key_bytes);
                    value_size = int (length value_bytes)
                in case encode_header timestamp key_size value_size of
                     Inl e \<Rightarrow> Inl e
                   | Inr header \<Rightarrow>
                       Inr (HEADER_SIZE + key_size + value_size,
                            header @ key_bytes @ value_bytes))))"

text \<open>
  Modelled from the spec: \<open>decode_kv\<close> decodes the header at the start of the buffer, slices
  key and value behind it and decodes both as UTF-8; it "fails with MalformedInputError if
  the buffer is shorter than HEADER_SIZE + key_size + value_size, or EncodingError if
  key/value bytes are not valid UTF-8".
\<close>

definition decode_kv :: "bytes \<Rightarrow> error + (int \<times> pystr \<times> pystr)" where
  "decode_kv data =
     (case decode_header (take (nat HEADER_SIZE) data) of
        Inl e \<Rightarrow> Inl e
      | Inr (timestamp, key_size, value_size) \<Rightarrow>
          if int (length data) < HEADER_SIZE + key_size + value_size
          then Inl MalformedInputError
          else
            (case bytes_decode (take (nat key_size) (drop (nat HEADER_SIZE) data)) of
               Inl e \<Rightarrow> Inl e
             | Inr key \<Rightarrow>
                 (case bytes_decode
                         (take (nat value_size)
                            (drop (nat (HEADER_SIZE + key_size)) data)) of
                    Inl e \<Rightarrow> Inl e
                  | Inr val \<Rightarrow> Inr (timestamp, key, val))))"

section \<open>The storage engine (\<open>pollen/disk_store.py\<close>)\<close>

text \<open>
  \<open>KeyEntry\<close> is the dataclass of the source; its field \<open>size\<close> is called \<open>size_bytes\<close>
  here. \<open>DiskStorage\<close> holds the key directory, a Python \<open>dict\<close>: an association list
  in insertion order, where \<open>AList.update\<close> is \<open>d[k] = v\<close> (an existing key keeps its
  place, a new one goes to the end), \<open>AList.delete\<close> is \<open>del d[k]\<close> and \<open>map_of\<close> is
  \<open>d.get(k)\<close>. The field \<open>file_handle\<close> is \<open>self.file\<close>, the buffered file object opened
  in mode \<open>a+b\<close>: it is closed, or open and holding the bytes that \<open>write\<close> has accepted
  and that have not reached the operating system yet. The bytes of the log file live
  outside the object, since they outlive it: every operation that touches the file takes
  them as the argument \<open>disk\<close> and returns them.
\<close>

record KeyEntry =
  timestamp :: int
  position :: int
  size_bytes :: int

datatype handle = OpenFile bytes | ClosedFile

record DiskStorage =
  key_dir :: "(pystr \<times> KeyEntry) list"
  write_position :: int
  file_handle :: handle

text \<open>
  What the operating system does during one call of an operation: nothing, or an \<open>OSError\<close>
  out of \<open>file.write\<close>, out of a flush, or out of \<open>os.fsync\<close>. The number says how many of
  the bytes on their way to the file have reached it when the error is raised.
\<close>

datatype io_fault = NoFault | WriteFault nat | FlushFault nat | FsyncFault

text \<open>
  \<open>file.write(data)\<close>. The handle is in append mode, so bytes go to the end of the file
  wherever the last \<open>seek\<close> has left the offset, the buffered ones first. Without a fault
  the data joins the buffer (what a large write passes to the file at once is passed by the
  flush here, which \<open>_write\<close> calls next). With a fault, the bytes that were already
  buffered stay buffered as far as they have not been written, and the data of the failing
  call is not kept. Writing to a closed file raises \<open>ValueError\<close>.
\<close>

definition file_write ::
  "io_fault \<Rightarrow> bytes \<Rightarrow> handle \<Rightarrow> bytes \<Rightarrow> (error + unit) \<times> bytes \<times> handle" where
  "file_write io disk h data =
     (case h of
        ClosedFile \<Rightarrow> (Inl ValueError, disk, ClosedFile)
      | OpenFile pending \<Rightarrow>
          (case io of
             WriteFault n \<Rightarrow>
               (Inl OSError, disk @ take n (pending @ data), OpenFile (drop n pending))
           | _ \<Rightarrow> (Inr (), disk, OpenFile (pending @ data))))"

text \<open>
  \<open>file.flush()\<close>, also the flush that \<open>seek\<close> performs before it moves the offset: the
  buffered bytes are appended to the file. When the flush raises, the bytes not yet written
  stay in the buffer. An empty buffer needs no output and cannot fail.
\<close>

definition file_flush ::
  "io_fault \<Rightarrow> bytes \<Rightarrow> handle \<Rightarrow> (error + unit) \<times> bytes \<times> handle" where
  "file_flush io disk h =
     (case h of
        ClosedFile \<Rightarrow> (Inl ValueError, disk, ClosedFile)
      | OpenFile pending \<Rightarrow>
          (if pending = [] then (Inr (), disk, OpenFile [])
           else case io of
                  FlushFault n \<Rightarrow> (Inl OSError, disk @ take n pending, OpenFile (drop n pending))
                | _ \<Rightarrow> (Inr (), disk @ pending, OpenFile [])))"

definition os_fsync :: "io_fault \<Rightarrow> error + unit" where
  "os_fsync io = (case io of FsyncFault \<Rightarrow> Inl OSError | _ \<Rightarrow> Inr ())"

text \<open>\<open>_write\<close> (here \<open>write_bytes\<close>): \<open>write\<close>, \<open>flush\<close> and \<open>fsync\<close> in this order.\<close>

definition write_bytes ::
  "io_fault \<Rightarrow> bytes \<Rightarrow> handle \<Rightarrow> bytes \<Rightarrow> (error + unit) \<times> bytes \<times> handle" where
  "write_bytes io disk h data =
     (case file_write io disk h data of
        (Inl e, disk1, h1) \<Rightarrow> (Inl e, disk1, h1)
      | (Inr u, disk1, h1) \<Rightarrow>
          (case file_flush io disk1 h1 of
             (Inl e, disk2, h2) \<Rightarrow> (Inl e, disk2, h2)
           | (Inr u, disk2, h2) \<Rightarrow>
               (case os_fsync io of
                  Inl e \<Rightarrow> (Inl e, disk2, h2)
                | Inr u \<Rightarrow> (Inr (), disk2, h2))))"

text \<open>\<open>list\<close> (here \<open>list_keys\<close>): the keys of the dictionary, in its order.\<close>

definition list_keys :: "DiskStorage \<Rightarrow> pystr list" where
  "list_keys s = map fst (key_dir s)"

text \<open>
  The loop of \<open>_init_key_dir\<close>. The file is read front to back, so the reader is the list
  of bytes not yet consumed: \<open>f.read(n)\<close> takes up to \<open>n\<close> of them, \<open>f.seek(n, 1)\<close> drops
  \<open>n\<close>, and past the end of the file every read is empty. The walrus condition stops the
  loop on an empty header read only.
\<close>

fun init_key_dir ::
  "bytes \<Rightarrow> (pystr \<times> KeyEntry) list \<Rightarrow> int
     \<Rightarrow> error + ((pystr \<times> KeyEntry) list \<times> int)" where
  "init_key_dir f kd wp =
     (let header_bytes = take (nat HEADER_SIZE) f; f1 = drop (nat HEADER_SIZE) f in
      if header_bytes = [] then Inr (kd, wp)
      else
        (case decode_header header_bytes of
           Inl e \<Rightarrow> Inl e
         | Inr (ts, key_size, value_size) \<Rightarrow>
             (let key_bytes = take (nat key_size) f1;
                  f2 = drop (nat key_size) f1;
                  f3 = drop (nat value_size) f2
              in case bytes_decode key_bytes of
                   Inl e \<Rightarrow> Inl e
                 | Inr key \<Rightarrow>
                     (let total_size = HEADER_SIZE + key_size + value_size;
                          kv = \<lparr>timestamp = ts, position = wp, size_bytes = total_size\<rparr>
                      in init_key_dir f3 (AList.update key kv kd) (wp + total_size)))))"

text \<open>
  \<open>__init__\<close>: \<open>fs\<close> is the file at \<open>file_name\<close> (\<open>None\<close> when it does not exist) and
  \<open>can_open\<close> says whether \<open>open(file_name, "a+b")\<close> succeeds; when it does not, the
  \<open>OSError\<close> is turned into a \<open>ValueError\<close>. An exception leaves no object behind. Opening
  for append creates a missing file; the new handle has nothing buffered.
\<close>

definition init :: "bool \<Rightarrow> bytes option \<Rightarrow> error + (bytes \<times> DiskStorage)" where
  "init can_open fs =
     (case (case fs of None \<Rightarrow> Inr ([], 0) | Some f \<Rightarrow> init_key_dir f [] 0) of
        Inl e \<Rightarrow> Inl e
      | Inr (kd, wp) \<Rightarrow>
          if can_open
          then Inr (case fs of None \<Rightarrow> [] | Some f \<Rightarrow> f,
                    \<lparr>key_dir = kd, write_position = wp, file_handle = OpenFile []\<rparr>)
          else Inl ValueError)"

text \<open>
  \<open>set\<close> (here \<open>set_kv\<close>): \<open>now\<close> is \<open>int(time.time())\<close>. The result is the outcome, the
  bytes of the file and the object after the call. When \<open>_write\<close> raises, the key directory
  and the write position have not been assigned; the file object keeps what it has
  buffered.
\<close>

definition set_kv ::
  "io_fault \<Rightarrow> int \<Rightarrow> bytes \<Rightarrow> DiskStorage \<Rightarrow> pystr \<Rightarrow> pystr
     \<Rightarrow> (error + unit) \<times> bytes \<times> DiskStorage" where
  "set_kv io now disk s key val =
     (case encode_kv now key val of
        Inl e \<Rightarrow> (Inl e, disk, s)
      | Inr (sz, data) \<Rightarrow>
          (case write_bytes io disk (file_handle s) data of
             (Inl e, disk', h) \<Rightarrow> (Inl e, disk', s\<lparr>file_handle := h\<rparr>)
           | (Inr u, disk', h) \<Rightarrow>
               (Inr (), disk',
                s\<lparr>file_handle := h,
                   key_dir :=
                     AList.update key
                       \<lparr>timestamp = now, position = write_position s, size_bytes = sz\<rparr>
                       (key_dir s),
                   write_position := write_position s + sz\<rparr>)))"

text \<open>
  \<open>get\<close>: a \<open>KeyEntry\<close> is always truthy, so \<open>not entry\<close> holds for \<open>None\<close> only, and
  then the file is not touched. \<open>seek\<close> on a closed file raises \<open>ValueError\<close>; on an open
  one it first flushes what is buffered, which can raise, and then moves the offset, where
  a negative offset is refused by the operating system. \<open>read(n)\<close> returns up to \<open>n\<close> bytes
  from the offset, everything for \<open>n = -1\<close>, and refuses a smaller \<open>n\<close>. What the file object
  has read ahead is not part of the model: while nothing is buffered for writing it is a
  copy of bytes of the file, since every flush that returns discards it.
\<close>

definition get ::
  "io_fault \<Rightarrow> bytes \<Rightarrow> DiskStorage \<Rightarrow> pystr \<Rightarrow> (error + pystr) \<times> bytes \<times> DiskStorage" where
  "get io disk s key =
     (case map_of (key_dir s) key of
        None \<Rightarrow> (Inr [], disk, s)
      | Some entry \<Rightarrow>
          (case file_flush io disk (file_handle s) of
             (Inl e, disk', h) \<Rightarrow> (Inl e, disk', s\<lparr>file_handle := h\<rparr>)
           | (Inr u, disk', h) \<Rightarrow>
               (if position entry < 0 then Inl OSError
                else if size_bytes entry < - 1 then Inl ValueError
                else
                  (let f = drop (nat (position entry)) disk';
                       data = (if size_bytes entry = - 1 then f
                               else take (nat (size_bytes entry)) f)
                   in case decode_kv data of
                        Inl e \<Rightarrow> Inl e
                      | Inr (ts, key', val) \<Rightarrow> Inr val),
                disk', s\<lparr>file_handle := h\<rparr>)))"

text \<open>
  \<open>remove\<close>: the tombstone is an ordinary \<open>set\<close> of the empty string; when that raises,
  the key stays in the key directory.
\<close>

definition remove ::
  "io_fault \<Rightarrow> int \<Rightarrow> bytes \<Rightarrow> DiskStorage \<Rightarrow> pystr
     \<Rightarrow> (error + unit) \<times> bytes \<times> DiskStorage" where
  "remove io now disk s key =
     (if map_of (key_dir s) key \<noteq> None
      then
        (case set_kv io now disk s key [] of
           (Inl e, disk', s') \<Rightarrow> (Inl e, disk', s')
         | (Inr u, disk', s') \<Rightarrow>
             (Inr (), disk', s'\<lparr>key_dir := AList.delete key (key_dir s')\<rparr>))
      else (Inr (), disk, s))"

text \<open>
  \<open>close\<close>: \<open>flush\<close>, which raises \<open>ValueError\<close> on a closed file and writes what an
  earlier failing flush has left in the buffer, then \<open>fsync\<close>, then \<open>file.close()\<close>. A
  failing \<open>flush\<close> or \<open>fsync\<close> leaves the handle open.
\<close>

definition close ::
  "io_fault \<Rightarrow> bytes \<Rightarrow> DiskStorage \<Rightarrow> (error + unit) \<times> bytes \<times> DiskStorage" where
  "close io disk s =
     (case file_flush io disk (file_handle s) of
        (Inl e, disk', h) \<Rightarrow> (Inl e, disk', s\<lparr>file_handle := h\<rparr>)
      | (Inr u, disk', h) \<Rightarrow>
          (case os_fsync io of
             Inl e \<Rightarrow> (Inl e, disk', s\<lparr>file_handle := h\<rparr>)
           | Inr u \<Rightarrow> (Inr (), disk', s\<lparr>file_handle := ClosedFile\<rparr>)))"

text \<open>
  The bound that every entry of the key directory is meant to respect: the record it
  points to ends at or before the write position.
\<close>

definition entries_within :: "(pystr \<times> KeyEntry) list \<Rightarrow> int \<Rightarrow> bool" where
  "entries_within kd wp = list_all (\<lambda>(k, e). position e + size_bytes e \<le> wp) kd"

section \<open>Properties of the codec\<close>

declare init_key_dir.simps [simp del]

subsection \<open>UTF-8 round trip\<close>

lemma unat_to_byte: "n < 256 \<Longrightarrow> unat (to_byte n) = n"
  by (simp add: to_byte_def unat_of_nat)

lemma join2: "(c::nat) div 64 * 64 + c mod 64 = c"
  by simp

lemma join_gen:
  fixes q r x k :: nat
  assumes "q * 64 + r = x"
  shows "q * (64 * k) + r * k = x * k"
  unfolding assms [symmetric] by (simp add: algebra_simps)

lemma join3: "(c::nat) div 4096 * 4096 + c div 64 mod 64 * 64 + c mod 64 = c"
proof -
  have e: "c div 4096 = c div 64 div 64" by (simp add: div_mult2_eq)
  have "c div 64 div 64 * (64 * 64) + c div 64 mod 64 * 64 = c div 64 * 64"
    by (rule join_gen) (rule join2)
  then have "c div 4096 * 4096 + c div 64 mod 64 * 64 = c div 64 * 64"
    unfolding e by simp
  then show ?thesis using join2 [of c] by linarith
qed

lemma join4:
  "(c::nat) div 262144 * 262144 + c div 4096 mod 64 * 4096 + c div 64 mod 64 * 64 + c mod 64 = c"
proof -
  have e: "c div 262144 = c div 4096 div 64" by (simp add: div_mult2_eq)
  have "c div 4096 div 64 * (64 * 4096) + c div 4096 mod 64 * 4096 = c div 4096 * 4096"
    by (rule join_gen) (rule join2)
  then have "c div 262144 * 262144 + c div 4096 mod 64 * 4096 = c div 4096 * 4096"
    unfolding e by simp
  then show ?thesis using join3 [of c] by linarith
qed

lemma decode_1byte:
  "c < 0x80 \<Longrightarrow> bytes_decode (to_byte c # r) = cons_cp c (bytes_decode r)"
  by (simp add: unat_to_byte)

lemma decode_2byte:
  assumes "0x80 \<le> c" "c < 0x800"
  shows "bytes_decode (to_byte (0xC0 + c div 64) # to_byte (0x80 + c mod 64) # r)
         = cons_cp c (bytes_decode r)"
proof -
  have d: "2 \<le> c div 64" "c div 64 < 32" using assms by simp_all
  have a: "unat (to_byte (0xC0 + c div 64)) = 0xC0 + c div 64"
    using d by (intro unat_to_byte) simp
  have b: "unat (to_byte (0x80 + c mod 64)) = 0x80 + c mod 64"
    by (intro unat_to_byte) simp
  show ?thesis
    using d join2 [of c] by (simp add: a b Let_def is_cont_def)
qed

lemma decode_3byte:
  assumes "0x800 \<le> c" "c < 0x10000" "\<not> (0xD800 \<le> c \<and> c < 0xE000)"
  shows "bytes_decode (to_byte (0xE0 + c div 4096) # to_byte (0x80 + c div 64 mod 64)
                       # to_byte (0x80 + c mod 64) # r)
         = cons_cp c (bytes_decode r)"
proof -
  have d: "c div 4096 < 16" using assms by simp
  have a: "unat (to_byte (0xE0 + c div 4096)) = 0xE0 + c div 4096"
    using d by (intro unat_to_byte) simp
  have b: "unat (to_byte (0x80 + c div 64 mod 64)) = 0x80 + c div 64 mod 64"
    by (intro unat_to_byte) simp
  have b2: "unat (to_byte (0x80 + c mod 64)) = 0x80 + c mod 64"
    by (intro unat_to_byte) simp
  show ?thesis
    using d assms by (simp add: a b b2 Let_def is_cont_def join3)
qed

lemma decode_4byte:
  assumes "0x10000 \<le> c" "c < 0x110000"
  shows "bytes_decode (to_byte (0xF0 + c div 262144) # to_byte (0x80 + c div 4096 mod 64)
                       # to_byte (0x80 + c div 64 mod 64) # to_byte (0x80 + c mod 64) # r)
         = cons_cp c (bytes_decode r)"
proof -
  have d: "c div 262144 < 8" using assms by simp
  have a: "unat (to_byte (0xF0 + c div 262144)) = 0xF0 + c div 262144"
    using d by (intro unat_to_byte) simp
  have b: "unat (to_byte (0x80 + c div 4096 mod 64)) = 0x80 + c div 4096 mod 64"
    by (intro unat_to_byte) simp
  have b1: "unat (to_byte (0x80 + c div 64 mod 64)) = 0x80 + c div 64 mod 64"
    by (intro unat_to_byte) simp
  have b2: "unat (to_byte (0x80 + c mod 64)) = 0x80 + c mod 64"
    by (intro unat_to_byte) simp
  show ?thesis
    using d assms by (simp add: a b b1 b2 Let_def is_cont_def join4)
qed

lemma decode_encode_cp:
  "encode_cp c = Some bs \<Longrightarrow> bytes_decode (bs @ r) = cons_cp c (bytes_decode r)"
  unfolding encode_cp_def
  by (auto split: if_splits simp del: bytes_decode.simps
           simp: decode_1byte decode_2byte decode_3byte decode_4byte)

lemma decode_encode_append:
  "str_encode s = Inr bs \<Longrightarrow>
   bytes_decode (bs @ r) = (case bytes_decode r of Inl e \<Rightarrow> Inl e | Inr t \<Rightarrow> Inr (s @ t))"
proof (induction s arbitrary: bs)
  case Nil
  then show ?case by (simp split: sum.splits)
next
  case (Cons c cs)
  from Cons.prems obtain b1 b2 where
    e: "encode_cp c = Some b1" "str_encode cs = Inr b2" "bs = b1 @ b2"
    by (auto split: option.splits sum.splits)
  show ?case
    using Cons.IH [OF e(2)] decode_encode_cp [OF e(1), of "b2 @ r"]
    by (simp add: e(3) cons_cp_def split: sum.splits)
qed

lemma decode_encode_str: "str_encode s = Inr bs \<Longrightarrow> bytes_decode bs = Inr s"
  using decode_encode_append [of s bs "[]"] by simp

subsection \<open>Header round trip\<close>

lemma join_lin:
  fixes n a b c r0 r1 r2 :: nat
  assumes "n = r0 + 256 * a" "a = r1 + 256 * b" "b = r2 + 256 * c"
  shows "r0 + 256 * r1 + 65536 * r2 + 16777216 * c = n"
  using assms by simp

lemma join256:
  "(n::nat) mod 256 + 256 * (n div 256 mod 256) + 65536 * (n div 65536 mod 256)
   + 16777216 * (n div 16777216) = n"
proof (rule join_lin)
  show "n = n mod 256 + 256 * (n div 256)" by simp
  have "n div 65536 = n div 256 div 256" by (simp add: div_mult2_eq)
  then show "n div 256 = n div 256 mod 256 + 256 * (n div 65536)" by simp
  have "n div 16777216 = n div 65536 div 256" by (simp add: div_mult2_eq)
  then show "n div 65536 = n div 65536 mod 256 + 256 * (n div 16777216)" by simp
qed

lemma u32_value_bytes:
  assumes "n < 2 ^ 32"
  shows "u32_value (u32_bytes n) = n"
proof -
  have b: "n div 16777216 < 256" using assms by simp
  then have "n div 16777216 mod 256 = n div 16777216" by simp
  then show ?thesis
    using join256 [of n] b by (simp add: u32_bytes_def unat_to_byte)
qed

lemma length_u32_bytes: "length (u32_bytes n) = 4"
  by (simp add: u32_bytes_def)

lemma encode_header_Inr:
  "encode_header ts ks vs = Inr h \<longleftrightarrow>
     in_u32 ts \<and> in_u32 ks \<and> in_u32 vs \<and>
     h = u32_bytes (nat ts) @ u32_bytes (nat ks) @ u32_bytes (nat vs)"
  by (auto simp: encode_header_def)

lemma length_encode_header: "encode_header ts ks vs = Inr h \<Longrightarrow> length h = 12"
  by (simp add: encode_header_Inr length_u32_bytes)

lemma nat_in_u32: "in_u32 n \<Longrightarrow> nat n < 2 ^ 32"
  by (auto simp: in_u32_def nat_less_iff)

lemma decode_encode_header:
  assumes "encode_header ts ks vs = Inr h"
  shows "decode_header h = Inr (ts, ks, vs)"
proof -
  from assms have r: "in_u32 ts" "in_u32 ks" "in_u32 vs"
    and h: "h = u32_bytes (nat ts) @ u32_bytes (nat ks) @ u32_bytes (nat vs)"
    by (simp_all add: encode_header_Inr)
  have p: "0 \<le> ts" "0 \<le> ks" "0 \<le> vs" using r by (simp_all add: in_u32_def)
  have v: "u32_value (u32_bytes (nat ts)) = nat ts" "u32_value (u32_bytes (nat ks)) = nat ks"
    "u32_value (u32_bytes (nat vs)) = nat vs"
    using r by (simp_all only: u32_value_bytes nat_in_u32)
  show ?thesis
    using p by (simp add: decode_header_def h HEADER_SIZE_def length_u32_bytes v)
qed

lemma decode_header_nonneg:
  "decode_header h = Inr (ts, ks, vs) \<Longrightarrow> 0 \<le> ts \<and> 0 \<le> ks \<and> 0 \<le> vs"
  by (auto simp: decode_header_def split: if_splits)

lemma decode_header_length:
  "decode_header h = Inr r \<Longrightarrow> length h = 12"
  by (auto simp: decode_header_def HEADER_SIZE_def split: if_splits)

subsection \<open>Record round trip\<close>

lemma encode_kv_Inr:
  "encode_kv ts k v = Inr (sz, data) \<longleftrightarrow>
     (\<exists>kb vb h. str_encode k = Inr kb \<and> str_encode v = Inr vb \<and>
        encode_header ts (int (length kb)) (int (length vb)) = Inr h \<and>
        sz = HEADER_SIZE + int (length kb) + int (length vb) \<and> data = h @ kb @ vb)"
  by (auto simp: encode_kv_def Let_def split: sum.splits)

lemma decode_kv_record:
  assumes "encode_header ts (int (length kb)) (int (length vb)) = Inr h"
  shows "decode_kv (h @ kb @ vb) =
     (case bytes_decode kb of Inl e \<Rightarrow> Inl e
      | Inr k \<Rightarrow> (case bytes_decode vb of Inl e \<Rightarrow> Inl e | Inr v \<Rightarrow> Inr (ts, k, v)))"
proof -
  have l: "length h = 12" using assms by (rule length_encode_header)
  have d: "decode_header h = Inr (ts, int (length kb), int (length vb))"
    using assms by (rule decode_encode_header)
  show ?thesis
    by (cases "bytes_decode kb")
       (simp_all add: decode_kv_def HEADER_SIZE_def l d nat_add_distrib)
qed

lemma decode_encode_kv:
  assumes "encode_kv ts k v = Inr (sz, data)"
  shows "decode_kv data = Inr (ts, k, v)"
proof -
  from assms obtain kb vb h where
    e: "str_encode k = Inr kb" "str_encode v = Inr vb"
       "encode_header ts (int (length kb)) (int (length vb)) = Inr h"
       "data = h @ kb @ vb"
    unfolding encode_kv_Inr by blast
  show ?thesis
    by (simp add: e(4) decode_kv_record [OF e(3)]
        decode_encode_str [OF e(1)] decode_encode_str [OF e(2)])
qed

lemma encode_kv_size:
  "encode_kv ts k v = Inr (sz, data) \<Longrightarrow> sz = int (length data) \<and> HEADER_SIZE \<le> sz"
  by (auto simp: encode_kv_Inr HEADER_SIZE_def dest: length_encode_header)




text \<open>
  C7: \<open>encode_header\<close> fails with \<open>RangeError\<close> as soon as one of the three fields lies
  outside \<open>[0, 2^32 - 1]\<close>, in particular when one of them is \<open>2^32\<close>, whatever the other
  two are; and a header that is returned decodes to the fields given, so that none of them
  has been wrapped or truncated.
\<close>

theorem encode_header_out_of_range:
  "(\<not> (0 \<le> ts \<and> ts \<le> 2 ^ 32 - 1) \<or>
    \<not> (0 \<le> key_size \<and> key_size \<le> 2 ^ 32 - 1) \<or>
    \<not> (0 \<le> value_size \<and> value_size \<le> 2 ^ 32 - 1) \<longrightarrow>
      encode_header ts key_size value_size = Inl RangeError) \<and>
   encode_header (2 ^ 32) key_size value_size = Inl RangeError \<and>
   encode_header ts (2 ^ 32) value_size = Inl RangeError \<and>
   encode_header ts key_size (2 ^ 32) = Inl RangeError \<and>
   (encode_header ts key_size value_size = Inr h \<longrightarrow>
      decode_header h = Inr (ts, key_size, value_size))"
proof (intro conjI impI)
  assume "\<not> (0 \<le> ts \<and> ts \<le> 2 ^ 32 - 1) \<or>
    \<not> (0 \<le> key_size \<and> key_size \<le> 2 ^ 32 - 1) \<or>
    \<not> (0 \<le> value_size \<and> value_size \<le> 2 ^ 32 - 1)"
  then show "encode_header ts key_size value_size = Inl RangeError"
    by (auto simp: encode_header_def in_u32_def)
next
  show "encode_header (2 ^ 32) key_size value_size = Inl RangeError"
    by (simp add: encode_header_def in_u32_def)
  show "encode_header ts (2 ^ 32) value_size = Inl RangeError"
    by (simp add: encode_header_def in_u32_def)
  show "encode_header ts key_size (2 ^ 32) = Inl RangeError"
    by (simp add: encode_header_def in_u32_def)
next
  assume "encode_header ts key_size value_size = Inr h"
  then show "decode_header h = Inr (ts, key_size, value_size)"
    by (rule decode_encode_header)
qed

theorem encode_header_out_of_range_witness:
  "\<not> (0 \<le> (- 1 :: int) \<and> (- 1 :: int) \<le> 2 ^ 32 - 1) \<and>
   encode_header (- 1) 5 5 = Inl RangeError \<and>
   encode_header 5 (2 ^ 32) 5 = Inl RangeError \<and>
   encode_header 10 4 4 = Inr [10, 0, 0, 0, 4, 0, 0, 0, 4, 0, 0, 0] \<and>
   decode_header [10, 0, 0, 0, 4, 0, 0, 0, 4, 0, 0, 0] = Inr (10, 4, 4)"
proof -
  have e: "encode_header 10 4 4 = Inr [10, 0, 0, 0, 4, 0, 0, 0, 4, 0, 0, 0]"
    by (simp add: encode_header_def in_u32_def u32_bytes_def to_byte_def)
  show ?thesis
    using e encode_header_out_of_range [of "- 1" 5 5 "[]"]
      encode_header_out_of_range [of 5 5 5 "[]"]
      encode_header_out_of_range [of 10 4 4 "[10, 0, 0, 0, 4, 0, 0, 0, 4, 0, 0, 0]"]
    by simp
qed

section \<open>Properties of the storage engine\<close>

subsection \<open>The file object\<close>

lemma handle_same: "file_handle s = h \<Longrightarrow> s\<lparr>file_handle := h\<rparr> = s"
  by (cases s) auto

lemma file_flush_empty: "file_flush io disk (OpenFile []) = (Inr (), disk, OpenFile [])"
  by (simp add: file_flush_def)

lemma file_flush_closed: "file_flush io disk ClosedFile = (Inl ValueError, disk, ClosedFile)"
  by (simp add: file_flush_def)

lemma write_bytes_closed:
  "write_bytes io disk ClosedFile data = (Inl ValueError, disk, ClosedFile)"
  by (simp add: write_bytes_def file_write_def)

lemma write_bytes_NoFault:
  "write_bytes NoFault disk (OpenFile pending) data =
     (Inr (), disk @ pending @ data, OpenFile [])"
  by (simp add: write_bytes_def file_write_def file_flush_def os_fsync_def)

lemma write_bytes_fault:
  assumes "io \<noteq> NoFault" "data \<noteq> []"
  shows "\<exists>d h. write_bytes io disk (OpenFile pending) data = (Inl OSError, d, h)"
  using assms
  by (cases io) (simp_all add: write_bytes_def file_write_def file_flush_def os_fsync_def)

lemma write_bytes_Inr:
  assumes "write_bytes io disk h data = (Inr u, disk', h')" "data \<noteq> []"
  shows "\<exists>pending. h = OpenFile pending \<and> io = NoFault \<and>
           disk' = disk @ pending @ data \<and> h' = OpenFile []"
proof (cases h)
  case ClosedFile
  with assms(1) show ?thesis by (simp add: write_bytes_closed)
next
  case (OpenFile pending)
  show ?thesis
  proof (cases "io = NoFault")
    case True
    with assms(1) OpenFile show ?thesis by (simp add: write_bytes_NoFault)
  next
    case False
    from write_bytes_fault [OF False assms(2), of disk pending] assms(1) OpenFile
    show ?thesis by auto
  qed
qed

subsection \<open>Set and get\<close>

lemma encode_kv_nonempty: "encode_kv ts k v = Inr (sz, data) \<Longrightarrow> data \<noteq> []"
  using encode_kv_size [of ts k v sz data] by (auto simp: HEADER_SIZE_def)

lemma set_kv_Inr:
  assumes "set_kv io now disk s key val = (Inr u, disk', s')"
  obtains sz data pending where
    "encode_kv now key val = Inr (sz, data)" "file_handle s = OpenFile pending"
    "io = NoFault" "disk' = disk @ pending @ data"
    "s' = s\<lparr>file_handle := OpenFile [],
            key_dir :=
              AList.update key
                \<lparr>timestamp = now, position = write_position s, size_bytes = sz\<rparr>
                (key_dir s),
            write_position := write_position s + sz\<rparr>"
proof (cases "encode_kv now key val")
  case (Inl e)
  with assms show ?thesis by (simp add: set_kv_def)
next
  case (Inr p)
  obtain sz data where p: "p = (sz, data)" by (cases p)
  obtain r d h where w: "write_bytes io disk (file_handle s) data = (r, d, h)"
    by (cases "write_bytes io disk (file_handle s) data")
  have ne: "data \<noteq> []" using Inr [unfolded p] by (rule encode_kv_nonempty)
  show ?thesis
  proof (cases r)
    case (Inl e)
    with assms show ?thesis by (simp add: set_kv_def Inr p w)
  next
    case r: (Inr u')
    from w r write_bytes_Inr [OF _ ne] obtain pending where
      h: "file_handle s = OpenFile pending" "io = NoFault" "d = disk @ pending @ data"
         "h = OpenFile []"
      by blast
    from assms have "disk' = d"
      "s' = s\<lparr>file_handle := h,
            key_dir :=
              AList.update key
                \<lparr>timestamp = now, position = write_position s, size_bytes = sz\<rparr>
                (key_dir s),
            write_position := write_position s + sz\<rparr>"
      by (simp_all add: set_kv_def Inr p w r)
    with h show ?thesis using that [of sz data pending] Inr p by simp
  qed
qed

lemma set_kv_NoFault:
  assumes "encode_kv now key val = Inr (sz, data)" "file_handle s = OpenFile pending"
  shows "set_kv NoFault now disk s key val =
     (Inr (), disk @ pending @ data,
      s\<lparr>file_handle := OpenFile [],
        key_dir :=
          AList.update key
            \<lparr>timestamp = now, position = write_position s, size_bytes = sz\<rparr>
            (key_dir s),
        write_position := write_position s + sz\<rparr>)"
  by (simp add: set_kv_def assms write_bytes_NoFault)

text \<open>
  The buffer at work: a \<open>set("k", "a")\<close> on a new file whose flush raises before any byte
  is written leaves the file empty and the record in the buffer; the next \<open>set("k", "b")\<close>
  writes both records, the failed one first.
\<close>

lemma failed_flush_record_is_written_later:
  "set_kv (FlushFault 0) 10 [] \<lparr>key_dir = [], write_position = 0, file_handle = OpenFile []\<rparr>
     [107] [97] =
     (Inl OSError, [],
      \<lparr>key_dir = [], write_position = 0,
         file_handle = OpenFile [10, 0, 0, 0, 1, 0, 0, 0, 1, 0, 0, 0, 107, 97]\<rparr>) \<and>
   set_kv NoFault 11 []
     \<lparr>key_dir = [], write_position = 0,
        file_handle = OpenFile [10, 0, 0, 0, 1, 0, 0, 0, 1, 0, 0, 0, 107, 97]\<rparr> [107] [98] =
     (Inr (),
      [10, 0, 0, 0, 1, 0, 0, 0, 1, 0, 0, 0, 107, 97,
       11, 0, 0, 0, 1, 0, 0, 0, 1, 0, 0, 0, 107, 98],
      \<lparr>key_dir = [([107], \<lparr>timestamp = 11, position = 0, size_bytes = 14\<rparr>)],
         write_position = 14, file_handle = OpenFile []\<rparr>)"
  by (simp add: set_kv_def write_bytes_def file_write_def file_flush_def os_fsync_def
      encode_kv_def encode_cp_def to_byte_def encode_header_def in_u32_def u32_bytes_def
      HEADER_SIZE_def)

lemma set_kv_Inl:
  assumes "set_kv io now disk s key val = (Inl e, disk', s')"
  shows "\<exists>h. s' = s\<lparr>file_handle := h\<rparr>"
proof (cases "encode_kv now key val")
  case (Inl e')
  with assms have "s' = s" by (simp add: set_kv_def)
  then have "s' = s\<lparr>file_handle := file_handle s\<rparr>" by simp
  then show ?thesis ..
next
  case (Inr p)
  obtain sz data where p: "p = (sz, data)" by (cases p)
  obtain r d h where w: "write_bytes io disk (file_handle s) data = (r, d, h)"
    by (cases "write_bytes io disk (file_handle s) data")
  from assms show ?thesis
    by (cases r) (auto simp: set_kv_def Inr p w)
qed

lemma get_entry:
  assumes "map_of (key_dir s) key =
      Some \<lparr>timestamp = t, position = int (length disk), size_bytes = sz\<rparr>"
    and "file_handle s = OpenFile []"
    and "encode_kv t key val = Inr (sz, data)"
  shows "get io (disk @ data) s key = (Inr val, disk @ data, s)"
proof -
  have l: "sz = int (length data)" "HEADER_SIZE \<le> sz"
    using assms(3) by (simp_all add: encode_kv_size)
  then have "\<not> sz < - 1" "sz \<noteq> - 1" by (simp_all add: HEADER_SIZE_def)
  then show ?thesis
    using assms(1,2) l(1) decode_encode_kv [OF assms(3)]
    by (simp add: get_def file_flush_empty handle_same)
qed

lemma get_after_set:
  assumes "file_handle s = OpenFile pending"
    and "write_position s = int (length disk) + int (length pending)"
    and "set_kv io now disk s key val = (Inr u, disk', s')"
  shows "get io' disk' s' key = (Inr val, disk', s')"
proof -
  from assms(3) obtain sz data pending' where
    e: "encode_kv now key val = Inr (sz, data)" "file_handle s = OpenFile pending'"
       "disk' = disk @ pending' @ data"
       "s' = s\<lparr>file_handle := OpenFile [],
            key_dir :=
              AList.update key
                \<lparr>timestamp = now, position = write_position s, size_bytes = sz\<rparr>
                (key_dir s),
            write_position := write_position s + sz\<rparr>"
    by (rule set_kv_Inr)
  have p: "pending' = pending" using assms(1) e(2) by simp
  have d: "disk' = (disk @ pending) @ data" by (simp add: e(3) p)
  show ?thesis
    unfolding d
    by (rule get_entry [OF _ _ e(1)]) (simp_all add: e(4) assms(2) update_conv')
qed

lemma set_kv_consistent:
  assumes "file_handle s = OpenFile pending"
    and "write_position s = int (length disk) + int (length pending)"
    and "set_kv io now disk s key val = (Inr u, disk', s')"
  shows "file_handle s' = OpenFile [] \<and> write_position s' = int (length disk')"
proof -
  from assms(3) obtain sz data pending' where
    e: "encode_kv now key val = Inr (sz, data)" "file_handle s = OpenFile pending'"
       "disk' = disk @ pending' @ data"
       "s' = s\<lparr>file_handle := OpenFile [],
            key_dir :=
              AList.update key
                \<lparr>timestamp = now, position = write_position s, size_bytes = sz\<rparr>
                (key_dir s),
            write_position := write_position s + sz\<rparr>"
    by (rule set_kv_Inr)
  have "sz = int (length data)" using e(1) by (simp add: encode_kv_size)
  then show ?thesis using assms(1,2) e(2) by (simp add: e(3,4))
qed

lemma get_absent: "map_of (key_dir s) key = None \<Longrightarrow> get io disk s key = (Inr [], disk, s)"
  by (simp add: get_def)

lemma set_kv_key_dir:
  "set_kv io now disk s key val = (r, disk', s') \<Longrightarrow>
   key_dir s' = key_dir s \<or> (\<exists>e. key_dir s' = AList.update key e (key_dir s))"
proof (cases r)
  case (Inl e)
  assume "set_kv io now disk s key val = (r, disk', s')"
  with Inl set_kv_Inl [of io now disk s key val e disk' s'] show ?thesis by auto
next
  case (Inr u)
  assume "set_kv io now disk s key val = (r, disk', s')"
  with Inr have "set_kv io now disk s key val = (Inr u, disk', s')" by simp
  then show ?thesis by (rule set_kv_Inr) auto
qed

lemma set_kv_other_key:
  assumes "set_kv io now disk s key' val = (r, disk', s')" "key' \<noteq> key"
  shows "map_of (key_dir s') key = map_of (key_dir s) key"
  using set_kv_key_dir [OF assms(1)] assms(2) by (auto simp: update_conv')

lemma remove_cases:
  assumes "remove io now disk s key = (r, disk', s')"
  shows "(map_of (key_dir s) key = None \<and> r = Inr () \<and> disk' = disk \<and> s' = s) \<or>
         (\<exists>e. r = Inl e \<and> set_kv io now disk s key [] = (Inl e, disk', s')) \<or>
         (\<exists>s1. r = Inr () \<and> set_kv io now disk s key [] = (Inr (), disk', s1) \<and>
               s' = s1\<lparr>key_dir := AList.delete key (key_dir s1)\<rparr>)"
proof (cases "map_of (key_dir s) key = None")
  case True
  with assms show ?thesis by (simp add: remove_def)
next
  case False
  obtain r1 d1 s1 where k: "set_kv io now disk s key [] = (r1, d1, s1)"
    by (cases "set_kv io now disk s key []")
  from assms False show ?thesis
    by (cases r1) (auto simp: remove_def k)
qed

lemma remove_keeps_absent:
  assumes "remove io now disk s key' = (r, disk', s')" "map_of (key_dir s) key = None"
  shows "map_of (key_dir s') key = None"
proof -
  from remove_cases [OF assms(1)] consider
      "s' = s"
    | e where "set_kv io now disk s key' [] = (Inl e, disk', s')"
    | s1 where "set_kv io now disk s key' [] = (Inr (), disk', s1)"
        "s' = s1\<lparr>key_dir := AList.delete key' (key_dir s1)\<rparr>"
    by blast
  then show ?thesis
  proof cases
    case 1
    with assms(2) show ?thesis by simp
  next
    case 2
    from set_kv_Inl [OF 2] assms(2) show ?thesis by auto
  next
    case 3
    have "map_of (key_dir s') key' = None" by (simp add: 3(2) delete_conv')
    moreover have "key' \<noteq> key \<Longrightarrow> map_of (key_dir s') key = None"
      using set_kv_other_key [OF 3(1), of key] assms(2) by (simp add: 3(2))
    ultimately show ?thesis by (cases "key' = key") auto
  qed
qed

lemma init_fresh:
  "init True None = Inr ([], \<lparr>key_dir = [], write_position = 0, file_handle = OpenFile []\<rparr>)"
  by (simp add: init_def)

subsection \<open>Replay\<close>

lemma init_key_dir_Nil: "init_key_dir [] kd wp = Inr (kd, wp)"
  by (subst init_key_dir.simps) simp

lemma init_key_dir_step:
  assumes "f \<noteq> []"
  shows "init_key_dir f kd wp =
     (case decode_header (take 12 f) of
        Inl e \<Rightarrow> Inl e
      | Inr (ts, key_size, value_size) \<Rightarrow>
          (case bytes_decode (take (nat key_size) (drop 12 f)) of
             Inl e \<Rightarrow> Inl e
           | Inr key \<Rightarrow>
               init_key_dir (drop (nat value_size) (drop (nat key_size) (drop 12 f)))
                 (AList.update key
                    \<lparr>timestamp = ts, position = wp, size_bytes = 12 + key_size + value_size\<rparr>
                    kd)
                 (wp + (12 + key_size + value_size))))"
  using assms
  by (subst init_key_dir.simps)
     (simp add: Let_def HEADER_SIZE_def split: sum.splits prod.splits)

lemma init_key_dir_Inr_step:
  assumes "f \<noteq> []" "init_key_dir f kd wp = Inr (kd', wp')"
  obtains ts ks vs key where
    "decode_header (take 12 f) = Inr (ts, ks, vs)" "0 \<le> ks" "0 \<le> vs" "12 \<le> length f"
    "bytes_decode (take (nat ks) (drop 12 f)) = Inr key"
    "init_key_dir (drop (nat vs) (drop (nat ks) (drop 12 f)))
       (AList.update key \<lparr>timestamp = ts, position = wp, size_bytes = 12 + ks + vs\<rparr> kd)
       (wp + (12 + ks + vs)) = Inr (kd', wp')"
proof -
  from assms obtain ts ks vs where d: "decode_header (take 12 f) = Inr (ts, ks, vs)"
    by (auto simp: init_key_dir_step split: sum.splits)
  from assms d obtain key where k: "bytes_decode (take (nat ks) (drop 12 f)) = Inr key"
    by (auto simp: init_key_dir_step split: sum.splits)
  have n: "0 \<le> ks" "0 \<le> vs" using decode_header_nonneg [OF d] by simp_all
  have "length (take 12 f) = 12" using d by (rule decode_header_length)
  then have l: "12 \<le> length f" by simp
  show thesis
    using assms that [OF d n l k] by (simp add: init_key_dir_step d k)
qed

lemma init_key_dir_covers:
  "init_key_dir f kd wp = Inr (kd', wp') \<Longrightarrow> wp + int (length f) \<le> wp'"
proof (induction "length f" arbitrary: f kd wp rule: less_induct)
  case less
  show ?case
  proof (cases "f = []")
    case True
    with less.prems show ?thesis by (simp add: init_key_dir_Nil)
  next
    case False
    from False less.prems obtain ts ks vs key where
      s: "0 \<le> ks" "0 \<le> vs" "12 \<le> length f"
        "init_key_dir (drop (nat vs) (drop (nat ks) (drop 12 f)))
           (AList.update key \<lparr>timestamp = ts, position = wp, size_bytes = 12 + ks + vs\<rparr> kd)
           (wp + (12 + ks + vs)) = Inr (kd', wp')"
      by (rule init_key_dir_Inr_step)
    have "length (drop (nat vs) (drop (nat ks) (drop 12 f))) < length f"
      using s(3) by simp
    from less.hyps [OF this s(4)] show ?thesis
      using s(1,2,3) by simp
  qed
qed

lemma init_key_dir_append:
  "init_key_dir f kd wp = Inr (kd', wp + int (length f)) \<Longrightarrow>
   init_key_dir (f @ g) kd wp = init_key_dir g kd' (wp + int (length f))"
proof (induction "length f" arbitrary: f kd wp rule: less_induct)
  case less
  show ?case
  proof (cases "f = []")
    case True
    with less.prems show ?thesis by (simp add: init_key_dir_Nil)
  next
    case False
    from False less.prems obtain ts ks vs key where
      s: "decode_header (take 12 f) = Inr (ts, ks, vs)" "0 \<le> ks" "0 \<le> vs" "12 \<le> length f"
        "bytes_decode (take (nat ks) (drop 12 f)) = Inr key"
        "init_key_dir (drop (nat vs) (drop (nat ks) (drop 12 f)))
           (AList.update key \<lparr>timestamp = ts, position = wp, size_bytes = 12 + ks + vs\<rparr> kd)
           (wp + (12 + ks + vs)) = Inr (kd', wp + int (length f))"
      by (rule init_key_dir_Inr_step)
    define f3 where "f3 = drop (nat vs) (drop (nat ks) (drop 12 f))"
    define kd1 where
      "kd1 = AList.update key \<lparr>timestamp = ts, position = wp, size_bytes = 12 + ks + vs\<rparr> kd"
    define wp1 where "wp1 = wp + (12 + ks + vs)"
    note r = s(6) [folded f3_def kd1_def wp1_def]
    have c: "wp1 + int (length f3) \<le> wp + int (length f)"
      using r by (rule init_key_dir_covers)
    then have fit: "12 + nat ks + nat vs \<le> length f"
      using s(2,3) by (simp add: f3_def wp1_def)
    then have len: "wp + int (length f) = wp1 + int (length f3)"
      using s(2,3) by (simp add: f3_def wp1_def)
    have short: "length f3 < length f" using s(4) by (simp add: f3_def)
    have "init_key_dir f3 kd1 wp1 = Inr (kd', wp1 + int (length f3))"
      using r by (simp only: len)
    then have ih: "init_key_dir (f3 @ g) kd1 wp1 = init_key_dir g kd' (wp1 + int (length f3))"
      by (rule less.hyps [OF short])
    have t: "take 12 (f @ g) = take 12 f"
      "take (nat ks) (drop 12 (f @ g)) = take (nat ks) (drop 12 f)"
      "drop (nat vs) (drop (nat ks) (drop 12 (f @ g))) = f3 @ g"
      using fit by (simp_all add: f3_def)
    have ne: "f @ g \<noteq> []" using False by simp
    have "init_key_dir (f @ g) kd wp = init_key_dir (f3 @ g) kd1 wp1"
      by (subst init_key_dir_step [OF ne])
         (simp only: t s(1,5) sum.case prod.case kd1_def wp1_def)
    then show ?thesis
      by (simp only: ih len)
  qed
qed

lemma init_key_dir_record:
  assumes "encode_kv ts k v = Inr (sz, data)"
  shows "init_key_dir data kd wp =
     Inr (AList.update k \<lparr>timestamp = ts, position = wp, size_bytes = sz\<rparr> kd, wp + sz)"
proof -
  from assms obtain kb vb h where
    e: "str_encode k = Inr kb" "str_encode v = Inr vb"
       "encode_header ts (int (length kb)) (int (length vb)) = Inr h"
       "sz = HEADER_SIZE + int (length kb) + int (length vb)" "data = h @ kb @ vb"
    unfolding encode_kv_Inr by blast
  have l: "length h = 12" using e(3) by (rule length_encode_header)
  have d: "decode_header h = Inr (ts, int (length kb), int (length vb))"
    using e(3) by (rule decode_encode_header)
  have ne: "data \<noteq> []" using l e(5) by auto
  have t: "take 12 data = h" "take (nat (int (length kb))) (drop 12 data) = kb"
    "drop (nat (int (length vb))) (drop (nat (int (length kb))) (drop 12 data)) = []"
    by (simp_all add: e(5) l)
  have "init_key_dir data kd wp =
      init_key_dir []
        (AList.update k
           \<lparr>timestamp = ts, position = wp,
              size_bytes = 12 + int (length kb) + int (length vb)\<rparr> kd)
        (wp + (12 + int (length kb) + int (length vb)))"
    by (subst init_key_dir_step [OF ne])
       (simp only: t d sum.case prod.case decode_encode_str [OF e(1)])
  then show ?thesis
    by (simp add: init_key_dir_Nil e(4) HEADER_SIZE_def)
qed

lemma init_Some:
  "init True (Some f) =
     (case init_key_dir f [] 0 of
        Inl e \<Rightarrow> Inl e
      | Inr (kd, wp) \<Rightarrow> Inr (f, \<lparr>key_dir = kd, write_position = wp, file_handle = OpenFile []\<rparr>))"
  by (simp add: init_def split: sum.splits)

lemma reopen_after_set:
  assumes "init_key_dir disk [] 0 = Inr (kd, int (length disk))"
    and "encode_kv now key val = Inr (sz, data)"
  shows "init True (Some (disk @ data)) =
     Inr (disk @ data,
          \<lparr>key_dir = AList.update key
               \<lparr>timestamp = now, position = int (length disk), size_bytes = sz\<rparr> kd,
           write_position = int (length disk) + sz, file_handle = OpenFile []\<rparr>)"
  using init_key_dir_append [of disk "[]" 0 kd data] assms
  by (simp add: init_Some init_key_dir_record)

text \<open>
  Two conditions recur below: the log replays without error to exactly its own length, and
  the write position of the engine is the length of the log plus the number of bytes that
  wait in the buffer of the file object. \<open>__init__\<close> on a missing or empty file gives
  both, \<open>__init__\<close> on a log with the first gives the second, and a \<open>set\<close> or \<open>remove\<close>
  that returns keeps both.
\<close>

lemma init_exact:
  "init_key_dir f [] 0 = Inr (kd, int (length f)) \<Longrightarrow>
   init True (Some f) =
     Inr (f, \<lparr>key_dir = kd, write_position = int (length f), file_handle = OpenFile []\<rparr>)"
  by (simp add: init_Some)

lemma replay_exact_after_set:
  assumes "init_key_dir disk [] 0 = Inr (kd, int (length disk))"
    and "file_handle s = OpenFile []"
    and "set_kv io now disk s key val = (Inr u, disk', s')"
  shows "\<exists>kd'. init_key_dir disk' [] 0 = Inr (kd', int (length disk'))"
proof -
  from assms(3) obtain sz data pending where
    e: "encode_kv now key val = Inr (sz, data)" "file_handle s = OpenFile pending"
       "disk' = disk @ pending @ data"
    by (rule set_kv_Inr)
  have d: "disk' = disk @ data" using assms(2) e(2,3) by simp
  have "sz = int (length data)" using e(1) by (simp add: encode_kv_size)
  then show ?thesis
    using init_key_dir_append [of disk "[]" 0 kd data] assms(1)
    by (simp add: d init_key_dir_record [OF e(1)])
qed

lemma remove_consistent:
  assumes "file_handle s = OpenFile pending"
    and "write_position s = int (length disk) + int (length pending)"
    and "remove io now disk s key = (Inr u, disk', s')"
  shows "\<exists>p. file_handle s' = OpenFile p \<and>
             write_position s' = int (length disk') + int (length p)"
proof -
  from remove_cases [OF assms(3)] consider
      "map_of (key_dir s) key = None" "disk' = disk" "s' = s"
    | s1 where "set_kv io now disk s key [] = (Inr (), disk', s1)"
        "s' = s1\<lparr>key_dir := AList.delete key (key_dir s1)\<rparr>"
    by auto
  then show ?thesis
  proof cases
    case 1
    with assms(1,2) show ?thesis by auto
  next
    case 2
    from set_kv_consistent [OF assms(1,2) 2(1)] show ?thesis by (simp add: 2(2))
  qed
qed

lemma replay_exact_after_remove:
  assumes "init_key_dir disk [] 0 = Inr (kd, int (length disk))"
    and "file_handle s = OpenFile []"
    and "remove io now disk s key = (Inr u, disk', s')"
  shows "\<exists>kd'. init_key_dir disk' [] 0 = Inr (kd', int (length disk'))"
proof -
  from remove_cases [OF assms(3)] consider
      "disk' = disk"
    | s1 where "set_kv io now disk s key [] = (Inr (), disk', s1)"
    by auto
  then show ?thesis
  proof cases
    case 1
    with assms(1) show ?thesis by auto
  next
    case 2
    from replay_exact_after_set [OF assms(1,2) 2] show ?thesis .
  qed
qed

text \<open>
  After a \<open>set(k, v)\<close> that returned on a log that replays to exactly its own length, and
  with nothing left in the buffer, a fresh \<open>__init__\<close> on the same file succeeds, and
  \<open>get(k)\<close> gives \<open>v\<close>: the entry that replay builds for \<open>k\<close> has the offset at which
  \<open>set\<close> appended the record and the length of that record.
\<close>

lemma persistence_on_intact_log:
  assumes "init_key_dir disk [] 0 = Inr (kd, int (length disk))"
    and "file_handle s = OpenFile []"
    and "set_kv io now disk s key val = (Inr (), disk', s')"
    and "close io2 disk' s' = (Inr (), disk'', s'')"
  shows "\<exists>s3 sz data.
        disk'' = disk' \<and>
        init True (Some disk') = Inr (disk', s3) \<and>
        get io3 disk' s3 key = (Inr val, disk', s3) \<and>
        encode_kv now key val = Inr (sz, data) \<and>
        disk' = disk @ data \<and>
        map_of (key_dir s3) key =
          Some \<lparr>timestamp = now, position = int (length disk),
                 size_bytes = int (length data)\<rparr> \<and>
        write_position s3 = int (length disk')"
proof -
  from assms(3) obtain sz data pending where
    e0: "encode_kv now key val = Inr (sz, data)" "file_handle s = OpenFile pending"
       "disk' = disk @ pending @ data"
       "s' = s\<lparr>file_handle := OpenFile [],
            key_dir :=
              AList.update key
                \<lparr>timestamp = now, position = write_position s, size_bytes = sz\<rparr>
                (key_dir s),
            write_position := write_position s + sz\<rparr>"
    by (rule set_kv_Inr)
  have e: "disk' = disk @ data" using assms(2) e0(2,3) by simp
  have c: "disk'' = disk'"
    using assms(4) by (auto simp: close_def e0(4) file_flush_empty split: sum.splits)
  have l: "sz = int (length data)" using e0(1) by (simp add: encode_kv_size)
  let ?e = "\<lparr>timestamp = now, position = int (length disk), size_bytes = sz\<rparr>"
  let ?s3 = "\<lparr>key_dir = AList.update key ?e kd,
           write_position = int (length disk) + sz, file_handle = OpenFile []\<rparr>"
  have i: "init True (Some disk') = Inr (disk', ?s3)"
    using assms(1) e0(1) unfolding e by (simp add: reopen_after_set)
  have g: "get io3 disk' ?s3 key = (Inr val, disk', ?s3)"
    unfolding e by (rule get_entry [OF _ _ e0(1)]) (simp_all add: update_conv')
  have m: "map_of (key_dir ?s3) key = Some ?e" by (simp add: update_conv')
  show ?thesis
    using c i g e0(1) e m l by (intro exI [of _ ?s3] exI [of _ sz] exI [of _ data]) simp
qed

subsection \<open>Claims about set and get\<close>

text \<open>
  C4, as stated, fails. On an engine opened on a new file, a \<open>set("k", "a")\<close> whose
  \<open>fsync\<close> raises leaves its record in the file and the write position at 0; the next
  \<open>set("k", "b")\<close> returns, its record is appended behind the first one, and the entry it
  stores points to offset 0: \<open>get("k")\<close> right after it returns \<open>"a"\<close>.
\<close>

theorem get_after_set_counterexample:
  "init True None =
     Inr ([], \<lparr>key_dir = [], write_position = 0, file_handle = OpenFile []\<rparr>) \<and>
   set_kv FsyncFault 10 [] \<lparr>key_dir = [], write_position = 0, file_handle = OpenFile []\<rparr>
     [107] [97] =
     (Inl OSError, [10, 0, 0, 0, 1, 0, 0, 0, 1, 0, 0, 0, 107, 97],
      \<lparr>key_dir = [], write_position = 0, file_handle = OpenFile []\<rparr>) \<and>
   set_kv NoFault 11 [10, 0, 0, 0, 1, 0, 0, 0, 1, 0, 0, 0, 107, 97]
     \<lparr>key_dir = [], write_position = 0, file_handle = OpenFile []\<rparr> [107] [98] =
     (Inr (),
      [10, 0, 0, 0, 1, 0, 0, 0, 1, 0, 0, 0, 107, 97,
       11, 0, 0, 0, 1, 0, 0, 0, 1, 0, 0, 0, 107, 98],
      \<lparr>key_dir = [([107], \<lparr>timestamp = 11, position = 0, size_bytes = 14\<rparr>)],
         write_position = 14, file_handle = OpenFile []\<rparr>) \<and>
   get NoFault
     [10, 0, 0, 0, 1, 0, 0, 0, 1, 0, 0, 0, 107, 97,
      11, 0, 0, 0, 1, 0, 0, 0, 1, 0, 0, 0, 107, 98]
     \<lparr>key_dir = [([107], \<lparr>timestamp = 11, position = 0, size_bytes = 14\<rparr>)],
        write_position = 14, file_handle = OpenFile []\<rparr> [107] =
     (Inr [97],
      [10, 0, 0, 0, 1, 0, 0, 0, 1, 0, 0, 0, 107, 97,
       11, 0, 0, 0, 1, 0, 0, 0, 1, 0, 0, 0, 107, 98],
      \<lparr>key_dir = [([107], \<lparr>timestamp = 11, position = 0, size_bytes = 14\<rparr>)],
         write_position = 14, file_handle = OpenFile []\<rparr>) \<and>
   [97] \<noteq> [98 :: nat]"
  by (simp add: init_def set_kv_def write_bytes_def file_write_def file_flush_def os_fsync_def
      get_def encode_kv_def encode_cp_def to_byte_def encode_header_def in_u32_def
      u32_bytes_def decode_kv_def decode_header_def HEADER_SIZE_def is_cont_def cons_cp_def)

text \<open>
  C4, amended: on an open engine whose write position is the length of the log plus the
  number of bytes waiting in the buffer of the file object (the state that \<open>__init__\<close>
  builds on a new or intact log and that every \<open>set\<close> that returns keeps), \<open>get(k)\<close>
  right after a \<open>set(k, v)\<close> that returned gives \<open>v\<close>, also when the same key is set
  twice in a row; a key that is not in the key directory reads as the empty string; and a
  key is not in the key directory of an engine opened on a new file, nor put there by a
  \<open>set\<close> of another key or by a \<open>remove\<close>.
\<close>

theorem get_after_set_returns_value:
  "(file_handle s = OpenFile pending \<and>
    write_position s = int (length disk) + int (length pending) \<and>
    set_kv io now disk s key val = (Inr (), disk', s') \<longrightarrow>
      get io' disk' s' key = (Inr val, disk', s')) \<and>
   (file_handle s = OpenFile pending \<and>
    write_position s = int (length disk) + int (length pending) \<and>
    set_kv io now disk s key val = (Inr (), disk', s') \<and>
    set_kv io2 now2 disk' s' key val2 = (Inr (), disk'', s'') \<longrightarrow>
      get io' disk'' s'' key = (Inr val2, disk'', s'')) \<and>
   (map_of (key_dir s) key = None \<longrightarrow> get io' disk s key = (Inr [], disk, s)) \<and>
   (init can_open None = Inr (disk, s) \<longrightarrow> map_of (key_dir s) key = None) \<and>
   (map_of (key_dir t) key = None \<and>
    (key3 \<noteq> key \<and> set_kv io3 now3 dsk t key3 val3 = (r, dsk', t') \<or>
     remove io3 now3 dsk t key3 = (r, dsk', t')) \<longrightarrow>
      map_of (key_dir t') key = None)"
proof (intro conjI impI)
  assume "file_handle s = OpenFile pending \<and>
    write_position s = int (length disk) + int (length pending) \<and>
    set_kv io now disk s key val = (Inr (), disk', s')"
  then show "get io' disk' s' key = (Inr val, disk', s')"
    using get_after_set by blast
next
  assume a: "file_handle s = OpenFile pending \<and>
    write_position s = int (length disk) + int (length pending) \<and>
    set_kv io now disk s key val = (Inr (), disk', s') \<and>
    set_kv io2 now2 disk' s' key val2 = (Inr (), disk'', s'')"
  then have "file_handle s' = OpenFile [] \<and> write_position s' = int (length disk')"
    using set_kv_consistent by blast
  then have "file_handle s' = OpenFile []"
    "write_position s' = int (length disk') + int (length ([] :: bytes))"
    by simp_all
  with a show "get io' disk'' s'' key = (Inr val2, disk'', s'')"
    using get_after_set by blast
next
  assume "map_of (key_dir s) key = None"
  then show "get io' disk s key = (Inr [], disk, s)" by (rule get_absent)
next
  assume "init can_open None = Inr (disk, s)"
  then show "map_of (key_dir s) key = None"
    by (auto simp: init_def split: if_splits)
next
  assume a: "map_of (key_dir t) key = None \<and>
    (key3 \<noteq> key \<and> set_kv io3 now3 dsk t key3 val3 = (r, dsk', t') \<or>
     remove io3 now3 dsk t key3 = (r, dsk', t'))"
  then consider "key3 \<noteq> key" "set_kv io3 now3 dsk t key3 val3 = (r, dsk', t')"
    | "remove io3 now3 dsk t key3 = (r, dsk', t')" by blast
  then show "map_of (key_dir t') key = None"
  proof cases
    case 1
    then show ?thesis
      using a set_kv_other_key [of io3 now3 dsk t key3 val3 r dsk' t' key] by simp
  next
    case 2
    then show ?thesis using a remove_keeps_absent by blast
  qed
qed

theorem get_after_set_returns_value_witness:
  "init True None =
     Inr ([], \<lparr>key_dir = [], write_position = 0, file_handle = OpenFile []\<rparr>) \<and>
   set_kv NoFault 10 [] \<lparr>key_dir = [], write_position = 0, file_handle = OpenFile []\<rparr>
     [107] [118] =
     (Inr (), [10, 0, 0, 0, 1, 0, 0, 0, 1, 0, 0, 0, 107, 118],
      \<lparr>key_dir = [([107], \<lparr>timestamp = 10, position = 0, size_bytes = 14\<rparr>)],
         write_position = 14, file_handle = OpenFile []\<rparr>) \<and>
   get NoFault [10, 0, 0, 0, 1, 0, 0, 0, 1, 0, 0, 0, 107, 118]
     \<lparr>key_dir = [([107], \<lparr>timestamp = 10, position = 0, size_bytes = 14\<rparr>)],
        write_position = 14, file_handle = OpenFile []\<rparr> [107] =
     (Inr [118], [10, 0, 0, 0, 1, 0, 0, 0, 1, 0, 0, 0, 107, 118],
      \<lparr>key_dir = [([107], \<lparr>timestamp = 10, position = 0, size_bytes = 14\<rparr>)],
         write_position = 14, file_handle = OpenFile []\<rparr>) \<and>
   set_kv NoFault 11 [10, 0, 0, 0, 1, 0, 0, 0, 1, 0, 0, 0, 107, 118]
     \<lparr>key_dir = [([107], \<lparr>timestamp = 10, position = 0, size_bytes = 14\<rparr>)],
        write_position = 14, file_handle = OpenFile []\<rparr> [107] [119, 119] =
     (Inr (),
      [10, 0, 0, 0, 1, 0, 0, 0, 1, 0, 0, 0, 107, 118,
       11, 0, 0, 0, 1, 0, 0, 0, 2, 0, 0, 0, 107, 119, 119],
      \<lparr>key_dir = [([107], \<lparr>timestamp = 11, position = 14, size_bytes = 15\<rparr>)],
         write_position = 29, file_handle = OpenFile []\<rparr>) \<and>
   get NoFault
     [10, 0, 0, 0, 1, 0, 0, 0, 1, 0, 0, 0, 107, 118,
      11, 0, 0, 0, 1, 0, 0, 0, 2, 0, 0, 0, 107, 119, 119]
     \<lparr>key_dir = [([107], \<lparr>timestamp = 11, position = 14, size_bytes = 15\<rparr>)],
        write_position = 29, file_handle = OpenFile []\<rparr> [107] =
     (Inr [119, 119],
      [10, 0, 0, 0, 1, 0, 0, 0, 1, 0, 0, 0, 107, 118,
       11, 0, 0, 0, 1, 0, 0, 0, 2, 0, 0, 0, 107, 119, 119],
      \<lparr>key_dir = [([107], \<lparr>timestamp = 11, position = 14, size_bytes = 15\<rparr>)],
         write_position = 29, file_handle = OpenFile []\<rparr>) \<and>
   get NoFault [] \<lparr>key_dir = [], write_position = 0, file_handle = OpenFile []\<rparr> [107] =
     (Inr [], [], \<lparr>key_dir = [], write_position = 0, file_handle = OpenFile []\<rparr>) \<and>
   map_of (key_dir \<lparr>key_dir = [([107], \<lparr>timestamp = 10, position = 0, size_bytes = 14\<rparr>)],
                    write_position = 14, file_handle = OpenFile []\<rparr>) [108] = None"
proof -
  let ?s0 = "\<lparr>key_dir = [], write_position = 0, file_handle = OpenFile []\<rparr>"
  let ?d1 = "[10, 0, 0, 0, 1, 0, 0, 0, 1, 0, 0, 0, 107, 118] :: bytes"
  let ?s1 = "\<lparr>key_dir = [([107], \<lparr>timestamp = 10, position = 0, size_bytes = 14\<rparr>)],
         write_position = 14, file_handle = OpenFile []\<rparr>"
  let ?d2 = "[10, 0, 0, 0, 1, 0, 0, 0, 1, 0, 0, 0, 107, 118,
       11, 0, 0, 0, 1, 0, 0, 0, 2, 0, 0, 0, 107, 119, 119] :: bytes"
  let ?s2 = "\<lparr>key_dir = [([107], \<lparr>timestamp = 11, position = 14, size_bytes = 15\<rparr>)],
         write_position = 29, file_handle = OpenFile []\<rparr>"
  have i: "init True None = Inr ([], ?s0)" by (rule init_fresh)
  have a: "set_kv NoFault 10 [] ?s0 [107] [118] = (Inr (), ?d1, ?s1)"
    by (simp add: set_kv_def write_bytes_def file_write_def file_flush_def os_fsync_def
        encode_kv_def encode_cp_def to_byte_def encode_header_def in_u32_def u32_bytes_def
        HEADER_SIZE_def)
  have b: "set_kv NoFault 11 ?d1 ?s1 [107] [119, 119] = (Inr (), ?d2, ?s2)"
    by (simp add: set_kv_def write_bytes_def file_write_def file_flush_def os_fsync_def
        encode_kv_def encode_cp_def to_byte_def encode_header_def in_u32_def u32_bytes_def
        HEADER_SIZE_def)
  have w: "file_handle ?s0 = OpenFile []"
    "write_position ?s0 = int (length ([] :: bytes)) + int (length ([] :: bytes))"
    by simp_all
  have n: "map_of (key_dir ?s0) [107] = None" "map_of (key_dir ?s0) [108] = None" by simp_all
  have o: "[107] \<noteq> [108::nat]" by simp
  note t = get_after_set_returns_value [where s = ?s0 and disk = "[]" and pending = "[]"
      and io = NoFault and io' = NoFault
      and now = 10 and key = "[107]" and val = "[118]" and disk' = ?d1 and s' = ?s1
      and ?io2.0 = NoFault and ?now2.0 = 11 and ?val2.0 = "[119, 119]" and disk'' = ?d2
      and s'' = ?s2 and can_open = True]
  note u = get_after_set_returns_value [where key = "[108]" and t = ?s0 and dsk = "[]"
      and ?io3.0 = NoFault and ?now3.0 = 10 and ?key3.0 = "[107]" and ?val3.0 = "[118]"
      and r = "Inr ()" and dsk' = ?d1 and t' = ?s1]
  show ?thesis
    using i a b w n o t u by simp
qed

text \<open>
  C10, as stated, fails in the same way as C4: after a \<open>set("", "a")\<close> whose \<open>fsync\<close>
  raises on a new file, \<open>set("", "b")\<close> returns and \<open>get("")\<close> returns \<open>"a"\<close>.
\<close>

theorem empty_key_counterexample:
  "init True None =
     Inr ([], \<lparr>key_dir = [], write_position = 0, file_handle = OpenFile []\<rparr>) \<and>
   set_kv FsyncFault 10 [] \<lparr>key_dir = [], write_position = 0, file_handle = OpenFile []\<rparr>
     [] [97] =
     (Inl OSError, [10, 0, 0, 0, 0, 0, 0, 0, 1, 0, 0, 0, 97],
      \<lparr>key_dir = [], write_position = 0, file_handle = OpenFile []\<rparr>) \<and>
   set_kv NoFault 11 [10, 0, 0, 0, 0, 0, 0, 0, 1, 0, 0, 0, 97]
     \<lparr>key_dir = [], write_position = 0, file_handle = OpenFile []\<rparr> [] [98] =
     (Inr (),
      [10, 0, 0, 0, 0, 0, 0, 0, 1, 0, 0, 0, 97, 11, 0, 0, 0, 0, 0, 0, 0, 1, 0, 0, 0, 98],
      \<lparr>key_dir = [([], \<lparr>timestamp = 11, position = 0, size_bytes = 13\<rparr>)],
         write_position = 13, file_handle = OpenFile []\<rparr>) \<and>
   get NoFault
     [10, 0, 0, 0, 0, 0, 0, 0, 1, 0, 0, 0, 97, 11, 0, 0, 0, 0, 0, 0, 0, 1, 0, 0, 0, 98]
     \<lparr>key_dir = [([], \<lparr>timestamp = 11, position = 0, size_bytes = 13\<rparr>)],
        write_position = 13, file_handle = OpenFile []\<rparr> [] =
     (Inr [97],
      [10, 0, 0, 0, 0, 0, 0, 0, 1, 0, 0, 0, 97, 11, 0, 0, 0, 0, 0, 0, 0, 1, 0, 0, 0, 98],
      \<lparr>key_dir = [([], \<lparr>timestamp = 11, position = 0, size_bytes = 13\<rparr>)],
         write_position = 13, file_handle = OpenFile []\<rparr>) \<and>
   [97] \<noteq> [98 :: nat]"
  by (simp add: init_def set_kv_def write_bytes_def file_write_def file_flush_def os_fsync_def
      get_def encode_kv_def encode_cp_def to_byte_def encode_header_def in_u32_def
      u32_bytes_def decode_kv_def decode_header_def HEADER_SIZE_def is_cont_def cons_cp_def)

text \<open>
  C10, amended: on an open engine whose write position is the length of the log plus the
  number of bytes waiting in the buffer of the file object, the empty string is a key like
  any other: after a \<open>set("", v)\<close> that returned, \<open>get("")\<close> gives \<open>v\<close> and \<open>""\<close> is among
  the keys that \<open>list()\<close> returns.
\<close>

theorem empty_key_supported:
  "file_handle s = OpenFile pending \<and>
   write_position s = int (length disk) + int (length pending) \<and>
   set_kv io now disk s [] val = (Inr (), disk', s') \<longrightarrow>
     get io' disk' s' [] = (Inr val, disk', s') \<and> [] \<in> set (list_keys s')"
proof (intro impI conjI)
  assume a: "file_handle s = OpenFile pending \<and>
   write_position s = int (length disk) + int (length pending) \<and>
    set_kv io now disk s [] val = (Inr (), disk', s')"
  then show "get io' disk' s' [] = (Inr val, disk', s')"
    using get_after_set by blast
  from a have "set_kv io now disk s [] val = (Inr (), disk', s')" by simp
  then obtain e where "key_dir s' = AList.update [] e (key_dir s)"
    by (rule set_kv_Inr) simp
  then show "[] \<in> set (list_keys s')"
    using dom_update [of "[]" e "key_dir s"] by (simp add: list_keys_def)
qed

theorem empty_key_supported_witness:
  "set_kv NoFault 11 [10, 0, 0, 0, 1, 0, 0, 0, 1, 0, 0, 0, 107, 118]
     \<lparr>key_dir = [([107], \<lparr>timestamp = 10, position = 0, size_bytes = 14\<rparr>)],
        write_position = 14, file_handle = OpenFile []\<rparr> [] [118] =
     (Inr (),
      [10, 0, 0, 0, 1, 0, 0, 0, 1, 0, 0, 0, 107, 118, 11, 0, 0, 0, 0, 0, 0, 0, 1, 0, 0, 0, 118],
      \<lparr>key_dir = [([107], \<lparr>timestamp = 10, position = 0, size_bytes = 14\<rparr>),
                    ([], \<lparr>timestamp = 11, position = 14, size_bytes = 13\<rparr>)],
         write_position = 27, file_handle = OpenFile []\<rparr>) \<and>
   get NoFault
     [10, 0, 0, 0, 1, 0, 0, 0, 1, 0, 0, 0, 107, 118, 11, 0, 0, 0, 0, 0, 0, 0, 1, 0, 0, 0, 118]
     \<lparr>key_dir = [([107], \<lparr>timestamp = 10, position = 0, size_bytes = 14\<rparr>),
                   ([], \<lparr>timestamp = 11, position = 14, size_bytes = 13\<rparr>)],
        write_position = 27, file_handle = OpenFile []\<rparr> [] =
     (Inr [118],
      [10, 0, 0, 0, 1, 0, 0, 0, 1, 0, 0, 0, 107, 118, 11, 0, 0, 0, 0, 0, 0, 0, 1, 0, 0, 0, 118],
      \<lparr>key_dir = [([107], \<lparr>timestamp = 10, position = 0, size_bytes = 14\<rparr>),
                    ([], \<lparr>timestamp = 11, position = 14, size_bytes = 13\<rparr>)],
         write_position = 27, file_handle = OpenFile []\<rparr>) \<and>
   [] \<in> set (list_keys
     \<lparr>key_dir = [([107], \<lparr>timestamp = 10, position = 0, size_bytes = 14\<rparr>),
                   ([], \<lparr>timestamp = 11, position = 14, size_bytes = 13\<rparr>)],
        write_position = 27, file_handle = OpenFile []\<rparr>)"
proof -
  let ?d1 = "[10, 0, 0, 0, 1, 0, 0, 0, 1, 0, 0, 0, 107, 118] :: bytes"
  let ?s1 = "\<lparr>key_dir = [([107], \<lparr>timestamp = 10, position = 0, size_bytes = 14\<rparr>)],
         write_position = 14, file_handle = OpenFile []\<rparr>"
  let ?d2 = "[10, 0, 0, 0, 1, 0, 0, 0, 1, 0, 0, 0, 107, 118,
              11, 0, 0, 0, 0, 0, 0, 0, 1, 0, 0, 0, 118] :: bytes"
  let ?s2 = "\<lparr>key_dir = [([107], \<lparr>timestamp = 10, position = 0, size_bytes = 14\<rparr>),
                    ([], \<lparr>timestamp = 11, position = 14, size_bytes = 13\<rparr>)],
         write_position = 27, file_handle = OpenFile []\<rparr>"
  have a: "set_kv NoFault 11 ?d1 ?s1 [] [118] = (Inr (), ?d2, ?s2)"
    by (simp add: set_kv_def write_bytes_def file_write_def file_flush_def os_fsync_def
        encode_kv_def encode_cp_def to_byte_def encode_header_def in_u32_def u32_bytes_def
        HEADER_SIZE_def)
  have w: "file_handle ?s1 = OpenFile []"
    "write_position ?s1 = int (length ?d1) + int (length ([] :: bytes))"
    by simp_all
  show ?thesis
    using a w empty_key_supported [where s = ?s1 and disk = ?d1 and pending = "[]"
      and io = NoFault and io' = NoFault and now = 11 and val = "[118]" and disk' = ?d2
      and s' = ?s2]
    by simp
qed

text \<open>
  C5: when \<open>set(key, value)\<close> raises, the key directory and the write position are what
  they were before the call; only the file object may differ, by what it holds in its
  buffer. And \<open>set\<close> does raise whenever the write, the flush or the sync fails, with
  \<open>OSError\<close> when the record could be encoded and the handle is open.
\<close>

theorem set_failure_leaves_index:
  "(set_kv io now disk s key val = (Inl e, disk', s') \<longrightarrow>
      key_dir s' = key_dir s \<and> write_position s' = write_position s \<and>
      (\<exists>h. s' = s\<lparr>file_handle := h\<rparr>)) \<and>
   (io \<noteq> NoFault \<longrightarrow>
      (\<exists>err d h. set_kv io now disk s key val = (Inl err, d, s\<lparr>file_handle := h\<rparr>))) \<and>
   (io \<noteq> NoFault \<and> file_handle s = OpenFile pending \<and>
    encode_kv now key val = Inr (sz, data) \<longrightarrow>
      (\<exists>d h. set_kv io now disk s key val = (Inl OSError, d, s\<lparr>file_handle := h\<rparr>)))"
proof (intro conjI impI)
  assume "set_kv io now disk s key val = (Inl e, disk', s')"
  then obtain h where h: "s' = s\<lparr>file_handle := h\<rparr>" using set_kv_Inl by blast
  then show "key_dir s' = key_dir s" "write_position s' = write_position s"
    "\<exists>h. s' = s\<lparr>file_handle := h\<rparr>"
    by auto
next
  assume f: "io \<noteq> NoFault"
  show "\<exists>err d h. set_kv io now disk s key val = (Inl err, d, s\<lparr>file_handle := h\<rparr>)"
  proof (cases "encode_kv now key val")
    case (Inl e)
    then have "set_kv io now disk s key val = (Inl e, disk, s\<lparr>file_handle := file_handle s\<rparr>)"
      by (simp add: set_kv_def)
    then show ?thesis by blast
  next
    case (Inr p)
    obtain sz' data' where p: "p = (sz', data')" by (cases p)
    have ne: "data' \<noteq> []" using Inr [unfolded p] by (rule encode_kv_nonempty)
    show ?thesis
    proof (cases "file_handle s")
      case ClosedFile
      then have "set_kv io now disk s key val =
          (Inl ValueError, disk, s\<lparr>file_handle := ClosedFile\<rparr>)"
        by (simp add: set_kv_def Inr p write_bytes_closed)
      then show ?thesis by blast
    next
      case (OpenFile q)
      from write_bytes_fault [OF f ne, of disk q] obtain d h where
        "write_bytes io disk (OpenFile q) data' = (Inl OSError, d, h)" by blast
      then have "set_kv io now disk s key val = (Inl OSError, d, s\<lparr>file_handle := h\<rparr>)"
        by (simp add: set_kv_def Inr p OpenFile)
      then show ?thesis by blast
    qed
  qed
next
  assume a: "io \<noteq> NoFault \<and> file_handle s = OpenFile pending \<and>
    encode_kv now key val = Inr (sz, data)"
  then have "encode_kv now key val = Inr (sz, data)" by simp
  then have ne: "data \<noteq> []" by (rule encode_kv_nonempty)
  from a write_bytes_fault [OF _ ne, of io disk pending] obtain d h where
    "write_bytes io disk (OpenFile pending) data = (Inl OSError, d, h)" by blast
  with a have "set_kv io now disk s key val = (Inl OSError, d, s\<lparr>file_handle := h\<rparr>)"
    by (simp add: set_kv_def)
  then show "\<exists>d h. set_kv io now disk s key val = (Inl OSError, d, s\<lparr>file_handle := h\<rparr>)"
    by blast
qed

theorem set_failure_leaves_index_witness:
  "set_kv (FlushFault 5) 10 [] \<lparr>key_dir = [], write_position = 0, file_handle = OpenFile []\<rparr>
     [107] [118] =
     (Inl OSError, [10, 0, 0, 0, 1],
      \<lparr>key_dir = [], write_position = 0,
         file_handle = OpenFile [0, 0, 0, 1, 0, 0, 0, 107, 118]\<rparr>) \<and>
   FlushFault 5 \<noteq> NoFault \<and>
   encode_kv 10 [107] [118] = Inr (14, [10, 0, 0, 0, 1, 0, 0, 0, 1, 0, 0, 0, 107, 118]) \<and>
   key_dir \<lparr>key_dir = [], write_position = 0,
             file_handle = OpenFile [0, 0, 0, 1, 0, 0, 0, 107, 118]\<rparr> = [] \<and>
   write_position \<lparr>key_dir = [], write_position = 0,
             file_handle = OpenFile [0, 0, 0, 1, 0, 0, 0, 107, 118]\<rparr> = 0"
proof -
  let ?s0 = "\<lparr>key_dir = [], write_position = 0, file_handle = OpenFile []\<rparr>"
  let ?s1 = "\<lparr>key_dir = [], write_position = 0,
               file_handle = OpenFile [0, 0, 0, 1, 0, 0, 0, 107, 118]\<rparr>"
  have a: "set_kv (FlushFault 5) 10 [] ?s0 [107] [118] = (Inl OSError, [10, 0, 0, 0, 1], ?s1)"
    by (simp add: set_kv_def write_bytes_def file_write_def file_flush_def os_fsync_def
        encode_kv_def encode_cp_def to_byte_def encode_header_def in_u32_def u32_bytes_def
        HEADER_SIZE_def)
  have e: "encode_kv 10 [107] [118] = Inr (14, [10, 0, 0, 0, 1, 0, 0, 0, 1, 0, 0, 0, 107, 118])"
    by (simp add: encode_kv_def encode_cp_def to_byte_def
        encode_header_def in_u32_def u32_bytes_def HEADER_SIZE_def)
  have h: "file_handle ?s0 = OpenFile []" by simp
  show ?thesis
    using a e h set_failure_leaves_index [where io = "FlushFault 5" and now = 10
      and disk = "[]" and s = ?s0 and key = "[107]" and val = "[118]" and e = OSError
      and disk' = "[10, 0, 0, 0, 1]" and s' = ?s1 and sz = 14 and pending = "[]"
      and data = "[10, 0, 0, 0, 1, 0, 0, 0, 1, 0, 0, 0, 107, 118]"]
    by simp
qed

subsection \<open>The key directory stays within the write position\<close>

lemma entries_within_mono:
  "entries_within kd wp \<Longrightarrow> wp \<le> wp' \<Longrightarrow> entries_within kd wp'"
  by (induction kd) (auto simp: entries_within_def)

lemma entries_within_update:
  "entries_within kd wp \<Longrightarrow> position e + size_bytes e \<le> wp \<Longrightarrow>
   entries_within (AList.update k e kd) wp"
  by (induction kd) (auto simp: entries_within_def)

lemma entries_within_delete:
  "entries_within kd wp \<Longrightarrow> entries_within (AList.delete k kd) wp"
  by (induction kd) (auto simp: entries_within_def)

lemma init_key_dir_within:
  "entries_within kd wp \<Longrightarrow> init_key_dir f kd wp = Inr (kd', wp') \<Longrightarrow>
   wp \<le> wp' \<and> entries_within kd' wp'"
proof (induction "length f" arbitrary: f kd wp rule: less_induct)
  case less
  show ?case
  proof (cases "f = []")
    case True
    with less.prems show ?thesis by (simp add: init_key_dir_Nil)
  next
    case False
    from False less.prems(2) obtain ts ks vs key where
      s: "0 \<le> ks" "0 \<le> vs" "12 \<le> length f"
        "init_key_dir (drop (nat vs) (drop (nat ks) (drop 12 f)))
           (AList.update key \<lparr>timestamp = ts, position = wp, size_bytes = 12 + ks + vs\<rparr> kd)
           (wp + (12 + ks + vs)) = Inr (kd', wp')"
      by (rule init_key_dir_Inr_step)
    have short: "length (drop (nat vs) (drop (nat ks) (drop 12 f))) < length f"
      using s(3) by simp
    have up: "wp \<le> wp + (12 + ks + vs)" using s(1,2) by simp
    have "entries_within
        (AList.update key \<lparr>timestamp = ts, position = wp, size_bytes = 12 + ks + vs\<rparr> kd)
        (wp + (12 + ks + vs))"
      by (rule entries_within_update) (simp_all add: entries_within_mono [OF less.prems(1) up])
    from less.hyps [OF short this s(4)] up show ?thesis by simp
  qed
qed

lemma set_kv_within:
  assumes "entries_within (key_dir s) (write_position s)"
    and "set_kv io now disk s key val = (r, disk', s')"
  shows "write_position s \<le> write_position s' \<and>
         entries_within (key_dir s') (write_position s')"
proof (cases r)
  case (Inl e)
  with assms(2) obtain h where "s' = s\<lparr>file_handle := h\<rparr>" using set_kv_Inl by blast
  with assms(1) show ?thesis by simp
next
  case (Inr u)
  with assms(2) have "set_kv io now disk s key val = (Inr u, disk', s')" by simp
  then obtain sz data where
    e: "encode_kv now key val = Inr (sz, data)"
       "s' = s\<lparr>file_handle := OpenFile [],
            key_dir :=
              AList.update key
                \<lparr>timestamp = now, position = write_position s, size_bytes = sz\<rparr>
                (key_dir s),
            write_position := write_position s + sz\<rparr>"
    by (rule set_kv_Inr)
  have p: "0 \<le> sz" using encode_kv_size [OF e(1)] by (simp add: HEADER_SIZE_def)
  then have up: "write_position s \<le> write_position s + sz" by simp
  have "entries_within
      (AList.update key \<lparr>timestamp = now, position = write_position s, size_bytes = sz\<rparr>
         (key_dir s))
      (write_position s + sz)"
    by (rule entries_within_update) (simp_all add: entries_within_mono [OF assms(1) up])
  with up show ?thesis by (simp add: e(2))
qed

lemma remove_within:
  assumes "entries_within (key_dir s) (write_position s)"
    and "remove io now disk s key = (r, disk', s')"
  shows "write_position s \<le> write_position s' \<and>
         entries_within (key_dir s') (write_position s')"
proof -
  from remove_cases [OF assms(2)] consider
      "s' = s"
    | e where "set_kv io now disk s key [] = (Inl e, disk', s')"
    | s1 where "set_kv io now disk s key [] = (Inr (), disk', s1)"
        "s' = s1\<lparr>key_dir := AList.delete key (key_dir s1)\<rparr>"
    by blast
  then show ?thesis
  proof cases
    case 1
    with assms(1) show ?thesis by simp
  next
    case 2
    from set_kv_within [OF assms(1) 2] show ?thesis .
  next
    case 3
    from set_kv_within [OF assms(1) 3(1)] show ?thesis
      by (simp add: 3(2) entries_within_delete)
  qed
qed

lemma init_within:
  assumes "init can_open fs = Inr (disk, s)"
  shows "0 \<le> write_position s \<and> entries_within (key_dir s) (write_position s)"
proof (cases fs)
  case None
  with assms show ?thesis by (auto simp: init_def entries_within_def split: if_splits)
next
  case (Some f)
  with assms obtain kd wp where
    i: "init_key_dir f [] 0 = Inr (kd, wp)" "key_dir s = kd" "write_position s = wp"
    by (auto simp: init_def split: sum.splits if_splits)
  have "entries_within [] 0" by (simp add: entries_within_def)
  from init_key_dir_within [OF this i(1)] show ?thesis by (simp add: i(2,3))
qed

text \<open>
  C9: \<open>__init__\<close> leaves a write position that is not negative and a key directory whose
  entries all end at or before it; \<open>set\<close> and \<open>remove\<close>, whether they return or raise,
  never lower the write position and keep every entry's \<open>position + size\<close> at or below
  it.
\<close>

theorem write_position_bounds_entries:
  "(init can_open fs = Inr (disk, s) \<longrightarrow>
      0 \<le> write_position s \<and> entries_within (key_dir s) (write_position s)) \<and>
   (entries_within (key_dir s1) (write_position s1) \<and>
    set_kv io now d1 s1 key val = (r1, d1', s1') \<longrightarrow>
      write_position s1 \<le> write_position s1' \<and>
      entries_within (key_dir s1') (write_position s1')) \<and>
   (entries_within (key_dir s2) (write_position s2) \<and>
    remove io2 now2 d2 s2 key2 = (r2, d2', s2') \<longrightarrow>
      write_position s2 \<le> write_position s2' \<and>
      entries_within (key_dir s2') (write_position s2'))"
  using init_within [of can_open fs disk s]
    set_kv_within [of s1 io now d1 key val r1 d1' s1']
    remove_within [of s2 io2 now2 d2 key2 r2 d2' s2']
  by blast

theorem write_position_bounds_entries_witness:
  "init True None =
     Inr ([], \<lparr>key_dir = [], write_position = 0, file_handle = OpenFile []\<rparr>) \<and>
   set_kv NoFault 10 [] \<lparr>key_dir = [], write_position = 0, file_handle = OpenFile []\<rparr>
     [107] [118] =
     (Inr (), [10, 0, 0, 0, 1, 0, 0, 0, 1, 0, 0, 0, 107, 118],
      \<lparr>key_dir = [([107], \<lparr>timestamp = 10, position = 0, size_bytes = 14\<rparr>)],
         write_position = 14, file_handle = OpenFile []\<rparr>) \<and>
   entries_within [([107], \<lparr>timestamp = 10, position = 0, size_bytes = 14\<rparr>)] 14 \<and>
   remove NoFault 11 [10, 0, 0, 0, 1, 0, 0, 0, 1, 0, 0, 0, 107, 118]
     \<lparr>key_dir = [([107], \<lparr>timestamp = 10, position = 0, size_bytes = 14\<rparr>)],
        write_position = 14, file_handle = OpenFile []\<rparr> [107] =
     (Inr (),
      [10, 0, 0, 0, 1, 0, 0, 0, 1, 0, 0, 0, 107, 118, 11, 0, 0, 0, 1, 0, 0, 0, 0, 0, 0, 0, 107],
      \<lparr>key_dir = [], write_position = 27, file_handle = OpenFile []\<rparr>) \<and>
   entries_within [] 27"
proof -
  let ?s0 = "\<lparr>key_dir = [], write_position = 0, file_handle = OpenFile []\<rparr>"
  let ?d1 = "[10, 0, 0, 0, 1, 0, 0, 0, 1, 0, 0, 0, 107, 118] :: bytes"
  let ?s1 = "\<lparr>key_dir = [([107], \<lparr>timestamp = 10, position = 0, size_bytes = 14\<rparr>)],
         write_position = 14, file_handle = OpenFile []\<rparr>"
  let ?d2 = "[10, 0, 0, 0, 1, 0, 0, 0, 1, 0, 0, 0, 107, 118,
              11, 0, 0, 0, 1, 0, 0, 0, 0, 0, 0, 0, 107] :: bytes"
  let ?s2 = "\<lparr>key_dir = [], write_position = 27, file_handle = OpenFile []\<rparr>"
  have i: "init True None = Inr ([], ?s0)" by (rule init_fresh)
  have a: "set_kv NoFault 10 [] ?s0 [107] [118] = (Inr (), ?d1, ?s1)"
    by (simp add: set_kv_def write_bytes_def file_write_def file_flush_def os_fsync_def
        encode_kv_def encode_cp_def to_byte_def encode_header_def in_u32_def u32_bytes_def
        HEADER_SIZE_def)
  have b: "remove NoFault 11 ?d1 ?s1 [107] = (Inr (), ?d2, ?s2)"
    by (simp add: remove_def set_kv_def write_bytes_def file_write_def file_flush_def
        os_fsync_def encode_kv_def encode_cp_def to_byte_def encode_header_def in_u32_def
        u32_bytes_def HEADER_SIZE_def)
  note t = write_position_bounds_entries [where can_open = True and fs = None and disk = "[]"
      and s = ?s0 and ?s1.0 = ?s0 and io = NoFault and now = 10 and ?d1.0 = "[]"
      and key = "[107]" and val = "[118]" and ?r1.0 = "Inr ()" and d1' = ?d1 and s1' = ?s1
      and ?s2.0 = ?s1 and ?io2.0 = NoFault and ?now2.0 = 11 and ?d2.0 = ?d1
      and ?key2.0 = "[107]" and ?r2.0 = "Inr ()" and d2' = ?d2 and s2' = ?s2]
  show ?thesis
    using i a b t by simp
qed

subsection \<open>After close\<close>

lemma close_Inr:
  "close io disk s = (Inr u, disk', s') \<Longrightarrow> s' = s\<lparr>file_handle := ClosedFile\<rparr>"
  by (auto simp: close_def split: sum.splits prod.splits)

lemma set_kv_closed:
  assumes "file_handle s = ClosedFile"
  shows "\<exists>e. set_kv io now disk s key val = (Inl e, disk, s)"
proof (cases "encode_kv now key val")
  case (Inl e)
  then show ?thesis by (simp add: set_kv_def)
next
  case (Inr p)
  obtain sz data where "p = (sz, data)" by (cases p)
  with Inr assms show ?thesis
    by (simp add: set_kv_def write_bytes_closed handle_same)
qed

text \<open>
  C8, as stated, fails: on an engine opened on a new file and closed, \<open>get\<close> of a key
  that is not in the key directory returns the empty string, \<open>remove\<close> of it returns
  without effect and \<open>list\<close> returns the (empty) list of keys; none of them raises.
\<close>

theorem closed_engine_counterexample:
  "init True None =
     Inr ([], \<lparr>key_dir = [], write_position = 0, file_handle = OpenFile []\<rparr>) \<and>
   close NoFault [] \<lparr>key_dir = [], write_position = 0, file_handle = OpenFile []\<rparr> =
     (Inr (), [], \<lparr>key_dir = [], write_position = 0, file_handle = ClosedFile\<rparr>) \<and>
   get NoFault [] \<lparr>key_dir = [], write_position = 0, file_handle = ClosedFile\<rparr> [107] =
     (Inr [], [], \<lparr>key_dir = [], write_position = 0, file_handle = ClosedFile\<rparr>) \<and>
   remove NoFault 11 [] \<lparr>key_dir = [], write_position = 0, file_handle = ClosedFile\<rparr> [107] =
     (Inr (), [], \<lparr>key_dir = [], write_position = 0, file_handle = ClosedFile\<rparr>) \<and>
   list_keys \<lparr>key_dir = [], write_position = 0, file_handle = ClosedFile\<rparr> = []"
  by (simp add: init_def close_def file_flush_def os_fsync_def get_def remove_def list_keys_def)

text \<open>
  C8, amended: after a \<open>close()\<close> that returned, \<open>set(k, v)\<close> raises for every key and
  value and leaves file and object alone; \<open>get(k)\<close> and \<open>remove(k)\<close> raise for every
  key that is in the key directory (\<open>get\<close> with the \<open>ValueError\<close> of the closed file);
  for a key that is not in the key directory \<open>get(k)\<close> returns the empty string and
  \<open>remove(k)\<close> returns without effect; \<open>list()\<close> returns the same keys as before the
  close.
\<close>

theorem closed_engine_operations:
  "close io disk0 s = (Inr (), disk1, s') \<longrightarrow>
     (\<exists>e. set_kv io2 now disk s' key val = (Inl e, disk, s')) \<and>
     (map_of (key_dir s') k1 \<noteq> None \<longrightarrow>
        get io3 disk s' k1 = (Inl ValueError, disk, s') \<and>
        (\<exists>e. remove io2 now disk s' k1 = (Inl e, disk, s'))) \<and>
     (map_of (key_dir s') k2 = None \<longrightarrow>
        get io3 disk s' k2 = (Inr [], disk, s') \<and>
        remove io2 now disk s' k2 = (Inr (), disk, s')) \<and>
     list_keys s' = list_keys s"
proof
  assume "close io disk0 s = (Inr (), disk1, s')"
  then have s': "s' = s\<lparr>file_handle := ClosedFile\<rparr>" by (rule close_Inr)
  then have c: "file_handle s' = ClosedFile" by simp
  have 1: "\<exists>e. set_kv io2 now disk s' key val = (Inl e, disk, s')"
    using c by (rule set_kv_closed)
  have 2: "get io3 disk s' k1 = (Inl ValueError, disk, s') \<and>
      (\<exists>e. remove io2 now disk s' k1 = (Inl e, disk, s'))"
    if "map_of (key_dir s') k1 \<noteq> None"
  proof -
    from set_kv_closed [OF c, of io2 now disk k1 "[]"]
    obtain e where "set_kv io2 now disk s' k1 [] = (Inl e, disk, s')" by blast
    with that c show ?thesis
      by (auto simp: get_def remove_def file_flush_closed handle_same)
  qed
  have 3: "get io3 disk s' k2 = (Inr [], disk, s') \<and>
      remove io2 now disk s' k2 = (Inr (), disk, s')"
    if "map_of (key_dir s') k2 = None"
    using that by (simp add: get_def remove_def)
  have 4: "list_keys s' = list_keys s" by (simp add: s' list_keys_def)
  from 1 2 3 4 show
    "(\<exists>e. set_kv io2 now disk s' key val = (Inl e, disk, s')) \<and>
     (map_of (key_dir s') k1 \<noteq> None \<longrightarrow>
        get io3 disk s' k1 = (Inl ValueError, disk, s') \<and>
        (\<exists>e. remove io2 now disk s' k1 = (Inl e, disk, s'))) \<and>
     (map_of (key_dir s') k2 = None \<longrightarrow>
        get io3 disk s' k2 = (Inr [], disk, s') \<and>
        remove io2 now disk s' k2 = (Inr (), disk, s')) \<and>
     list_keys s' = list_keys s"
    by blast
qed

theorem closed_engine_operations_witness:
  "close NoFault [10, 0, 0, 0, 1, 0, 0, 0, 1, 0, 0, 0, 107, 118]
     \<lparr>key_dir = [([107], \<lparr>timestamp = 10, position = 0, size_bytes = 14\<rparr>)],
        write_position = 14, file_handle = OpenFile []\<rparr> =
     (Inr (), [10, 0, 0, 0, 1, 0, 0, 0, 1, 0, 0, 0, 107, 118],
      \<lparr>key_dir = [([107], \<lparr>timestamp = 10, position = 0, size_bytes = 14\<rparr>)],
         write_position = 14, file_handle = ClosedFile\<rparr>) \<and>
   set_kv NoFault 11 [10, 0, 0, 0, 1, 0, 0, 0, 1, 0, 0, 0, 107, 118]
     \<lparr>key_dir = [([107], \<lparr>timestamp = 10, position = 0, size_bytes = 14\<rparr>)],
        write_position = 14, file_handle = ClosedFile\<rparr> [108] [118] =
     (Inl ValueError, [10, 0, 0, 0, 1, 0, 0, 0, 1, 0, 0, 0, 107, 118],
      \<lparr>key_dir = [([107], \<lparr>timestamp = 10, position = 0, size_bytes = 14\<rparr>)],
        write_position = 14, file_handle = ClosedFile\<rparr>) \<and>
   get NoFault [10, 0, 0, 0, 1, 0, 0, 0, 1, 0, 0, 0, 107, 118]
     \<lparr>key_dir = [([107], \<lparr>timestamp = 10, position = 0, size_bytes = 14\<rparr>)],
        write_position = 14, file_handle = ClosedFile\<rparr> [107] =
     (Inl ValueError, [10, 0, 0, 0, 1, 0, 0, 0, 1, 0, 0, 0, 107, 118],
      \<lparr>key_dir = [([107], \<lparr>timestamp = 10, position = 0, size_bytes = 14\<rparr>)],
        write_position = 14, file_handle = ClosedFile\<rparr>) \<and>
   get NoFault [10, 0, 0, 0, 1, 0, 0, 0, 1, 0, 0, 0, 107, 118]
     \<lparr>key_dir = [([107], \<lparr>timestamp = 10, position = 0, size_bytes = 14\<rparr>)],
        write_position = 14, file_handle = ClosedFile\<rparr> [108] =
     (Inr [], [10, 0, 0, 0, 1, 0, 0, 0, 1, 0, 0, 0, 107, 118],
      \<lparr>key_dir = [([107], \<lparr>timestamp = 10, position = 0, size_bytes = 14\<rparr>)],
        write_position = 14, file_handle = ClosedFile\<rparr>) \<and>
   list_keys
     \<lparr>key_dir = [([107], \<lparr>timestamp = 10, position = 0, size_bytes = 14\<rparr>)],
        write_position = 14, file_handle = ClosedFile\<rparr> = [[107]]"
proof -
  let ?d1 = "[10, 0, 0, 0, 1, 0, 0, 0, 1, 0, 0, 0, 107, 118] :: bytes"
  let ?s1 = "\<lparr>key_dir = [([107], \<lparr>timestamp = 10, position = 0, size_bytes = 14\<rparr>)],
         write_position = 14, file_handle = OpenFile []\<rparr>"
  let ?s2 = "\<lparr>key_dir = [([107], \<lparr>timestamp = 10, position = 0, size_bytes = 14\<rparr>)],
         write_position = 14, file_handle = ClosedFile\<rparr>"
  have c: "close NoFault ?d1 ?s1 = (Inr (), ?d1, ?s2)"
    by (simp add: close_def file_flush_def os_fsync_def)
  have a: "set_kv NoFault 11 ?d1 ?s2 [108] [118] = (Inl ValueError, ?d1, ?s2)"
    by (simp add: set_kv_def write_bytes_def file_write_def encode_kv_def encode_cp_def
        to_byte_def encode_header_def in_u32_def u32_bytes_def HEADER_SIZE_def)
  have m: "map_of (key_dir ?s2) [107] \<noteq> None" "map_of (key_dir ?s2) [108] = None"
    by simp_all
  have l: "list_keys ?s1 = [[107]]" by (simp add: list_keys_def)
  note t = closed_engine_operations [where io = NoFault and ?disk0.0 = ?d1 and s = ?s1
      and ?disk1.0 = ?d1 and s' = ?s2 and ?io2.0 = NoFault and ?io3.0 = NoFault and now = 11
      and disk = ?d1 and key = "[108]" and val = "[118]" and ?k1.0 = "[107]"
      and ?k2.0 = "[108]"]
  show ?thesis
    using c a m l t by simp
qed

subsection \<open>Replay after remove, and replay of a truncated log\<close>

text \<open>
  C1: the engine at the input where it departs from the claim. On an empty log,
  \<open>set("k", "v")\<close> and \<open>remove("k")\<close> leave an empty key directory, but the tombstone
  that \<open>remove\<close> appended is an ordinary record for replay: after \<open>close()\<close> and a fresh
  \<open>__init__\<close> on the same file, \<open>list()\<close> returns \<open>["k"]\<close>. Only \<open>get("k")\<close> is the
  empty string, as the claim says, since that is the value of the tombstone.
\<close>

theorem removed_key_listed_after_reopen:
  "init True (Some []) =
     Inr ([], \<lparr>key_dir = [], write_position = 0, file_handle = OpenFile []\<rparr>) \<and>
   set_kv NoFault 10 [] \<lparr>key_dir = [], write_position = 0, file_handle = OpenFile []\<rparr>
     [107] [118] =
     (Inr (), [10, 0, 0, 0, 1, 0, 0, 0, 1, 0, 0, 0, 107, 118],
      \<lparr>key_dir = [([107], \<lparr>timestamp = 10, position = 0, size_bytes = 14\<rparr>)],
         write_position = 14, file_handle = OpenFile []\<rparr>) \<and>
   remove NoFault 11 [10, 0, 0, 0, 1, 0, 0, 0, 1, 0, 0, 0, 107, 118]
     \<lparr>key_dir = [([107], \<lparr>timestamp = 10, position = 0, size_bytes = 14\<rparr>)],
        write_position = 14, file_handle = OpenFile []\<rparr> [107] =
     (Inr (),
      [10, 0, 0, 0, 1, 0, 0, 0, 1, 0, 0, 0, 107, 118, 11, 0, 0, 0, 1, 0, 0, 0, 0, 0, 0, 0, 107],
      \<lparr>key_dir = [], write_position = 27, file_handle = OpenFile []\<rparr>) \<and>
   list_keys \<lparr>key_dir = [], write_position = 27, file_handle = OpenFile []\<rparr> = [] \<and>
   close NoFault
     [10, 0, 0, 0, 1, 0, 0, 0, 1, 0, 0, 0, 107, 118, 11, 0, 0, 0, 1, 0, 0, 0, 0, 0, 0, 0, 107]
     \<lparr>key_dir = [], write_position = 27, file_handle = OpenFile []\<rparr> =
     (Inr (),
      [10, 0, 0, 0, 1, 0, 0, 0, 1, 0, 0, 0, 107, 118, 11, 0, 0, 0, 1, 0, 0, 0, 0, 0, 0, 0, 107],
      \<lparr>key_dir = [], write_position = 27, file_handle = ClosedFile\<rparr>) \<and>
   init True
     (Some [10, 0, 0, 0, 1, 0, 0, 0, 1, 0, 0, 0, 107, 118,
            11, 0, 0, 0, 1, 0, 0, 0, 0, 0, 0, 0, 107]) =
     Inr ([10, 0, 0, 0, 1, 0, 0, 0, 1, 0, 0, 0, 107, 118,
           11, 0, 0, 0, 1, 0, 0, 0, 0, 0, 0, 0, 107],
          \<lparr>key_dir = [([107], \<lparr>timestamp = 11, position = 14, size_bytes = 13\<rparr>)],
             write_position = 27, file_handle = OpenFile []\<rparr>) \<and>
   list_keys
     \<lparr>key_dir = [([107], \<lparr>timestamp = 11, position = 14, size_bytes = 13\<rparr>)],
        write_position = 27, file_handle = OpenFile []\<rparr> = [[107]] \<and>
   get NoFault
     [10, 0, 0, 0, 1, 0, 0, 0, 1, 0, 0, 0, 107, 118, 11, 0, 0, 0, 1, 0, 0, 0, 0, 0, 0, 0, 107]
     \<lparr>key_dir = [([107], \<lparr>timestamp = 11, position = 14, size_bytes = 13\<rparr>)],
        write_position = 27, file_handle = OpenFile []\<rparr> [107] =
     (Inr [],
      [10, 0, 0, 0, 1, 0, 0, 0, 1, 0, 0, 0, 107, 118, 11, 0, 0, 0, 1, 0, 0, 0, 0, 0, 0, 0, 107],
      \<lparr>key_dir = [([107], \<lparr>timestamp = 11, position = 14, size_bytes = 13\<rparr>)],
         write_position = 27, file_handle = OpenFile []\<rparr>)"
proof (intro conjI)
  show "init True (Some []) =
      Inr ([], \<lparr>key_dir = [], write_position = 0, file_handle = OpenFile []\<rparr>)"
    by (simp add: init_def init_key_dir_Nil)
  show "set_kv NoFault 10 [] \<lparr>key_dir = [], write_position = 0, file_handle = OpenFile []\<rparr>
          [107] [118] =
     (Inr (), [10, 0, 0, 0, 1, 0, 0, 0, 1, 0, 0, 0, 107, 118],
      \<lparr>key_dir = [([107], \<lparr>timestamp = 10, position = 0, size_bytes = 14\<rparr>)],
         write_position = 14, file_handle = OpenFile []\<rparr>)"
    by (simp add: set_kv_def write_bytes_def file_write_def file_flush_def os_fsync_def
        encode_kv_def encode_cp_def to_byte_def encode_header_def in_u32_def u32_bytes_def
        HEADER_SIZE_def)
  show "remove NoFault 11 [10, 0, 0, 0, 1, 0, 0, 0, 1, 0, 0, 0, 107, 118]
     \<lparr>key_dir = [([107], \<lparr>timestamp = 10, position = 0, size_bytes = 14\<rparr>)],
        write_position = 14, file_handle = OpenFile []\<rparr> [107] =
     (Inr (),
      [10, 0, 0, 0, 1, 0, 0, 0, 1, 0, 0, 0, 107, 118, 11, 0, 0, 0, 1, 0, 0, 0, 0, 0, 0, 0, 107],
      \<lparr>key_dir = [], write_position = 27, file_handle = OpenFile []\<rparr>)"
    by (simp add: remove_def set_kv_def write_bytes_def file_write_def file_flush_def
        os_fsync_def encode_kv_def encode_cp_def to_byte_def encode_header_def in_u32_def
        u32_bytes_def HEADER_SIZE_def)
  show "list_keys \<lparr>key_dir = [], write_position = 27, file_handle = OpenFile []\<rparr> = []"
    by (simp add: list_keys_def)
  show "close NoFault
     [10, 0, 0, 0, 1, 0, 0, 0, 1, 0, 0, 0, 107, 118, 11, 0, 0, 0, 1, 0, 0, 0, 0, 0, 0, 0, 107]
     \<lparr>key_dir = [], write_position = 27, file_handle = OpenFile []\<rparr> =
     (Inr (),
      [10, 0, 0, 0, 1, 0, 0, 0, 1, 0, 0, 0, 107, 118, 11, 0, 0, 0, 1, 0, 0, 0, 0, 0, 0, 0, 107],
      \<lparr>key_dir = [], write_position = 27, file_handle = ClosedFile\<rparr>)"
    by (simp add: close_def file_flush_def os_fsync_def)
  show "init True
     (Some [10, 0, 0, 0, 1, 0, 0, 0, 1, 0, 0, 0, 107, 118,
            11, 0, 0, 0, 1, 0, 0, 0, 0, 0, 0, 0, 107]) =
     Inr ([10, 0, 0, 0, 1, 0, 0, 0, 1, 0, 0, 0, 107, 118,
           11, 0, 0, 0, 1, 0, 0, 0, 0, 0, 0, 0, 107],
          \<lparr>key_dir = [([107], \<lparr>timestamp = 11, position = 14, size_bytes = 13\<rparr>)],
             write_position = 27, file_handle = OpenFile []\<rparr>)"
    by (simp add: init_def init_key_dir.simps decode_header_def HEADER_SIZE_def
        is_cont_def cons_cp_def)
  show "list_keys
     \<lparr>key_dir = [([107], \<lparr>timestamp = 11, position = 14, size_bytes = 13\<rparr>)],
        write_position = 27, file_handle = OpenFile []\<rparr> = [[107]]"
    by (simp add: list_keys_def)
  show "get NoFault
     [10, 0, 0, 0, 1, 0, 0, 0, 1, 0, 0, 0, 107, 118, 11, 0, 0, 0, 1, 0, 0, 0, 0, 0, 0, 0, 107]
     \<lparr>key_dir = [([107], \<lparr>timestamp = 11, position = 14, size_bytes = 13\<rparr>)],
        write_position = 27, file_handle = OpenFile []\<rparr> [107] =
     (Inr [],
      [10, 0, 0, 0, 1, 0, 0, 0, 1, 0, 0, 0, 107, 118, 11, 0, 0, 0, 1, 0, 0, 0, 0, 0, 0, 0, 107],
      \<lparr>key_dir = [([107], \<lparr>timestamp = 11, position = 14, size_bytes = 13\<rparr>)],
         write_position = 27, file_handle = OpenFile []\<rparr>)"
    by (simp add: get_def file_flush_def decode_kv_def decode_header_def HEADER_SIZE_def
        is_cont_def cons_cp_def)
qed

text \<open>
  C2: the engine at the inputs where it departs from the claim. A log of 15 bytes whose only
  header declares a key of 1 byte and a value of 5 bytes, and a log of 13 bytes whose only
  header declares a key of 3 bytes, are both opened without error: the index holds an
  entry of 18 and of 20 bytes, and the write position lies beyond the end of the file. A
  trailing buffer shorter than a header does make \<open>__init__\<close> fail.
\<close>

theorem truncated_record_accepted:
  "init True (Some [0, 0, 0, 0, 1, 0, 0, 0, 5, 0, 0, 0, 97, 1, 2]) =
     Inr ([0, 0, 0, 0, 1, 0, 0, 0, 5, 0, 0, 0, 97, 1, 2],
          \<lparr>key_dir = [([97], \<lparr>timestamp = 0, position = 0, size_bytes = 18\<rparr>)],
             write_position = 18, file_handle = OpenFile []\<rparr>) \<and>
   length [0, 0, 0, 0, 1, 0, 0, 0, 5, 0, 0, 0, 97, 1, 2 :: byte] = 15 \<and>
   init True (Some [0, 0, 0, 0, 3, 0, 0, 0, 5, 0, 0, 0, 97]) =
     Inr ([0, 0, 0, 0, 3, 0, 0, 0, 5, 0, 0, 0, 97],
          \<lparr>key_dir = [([97], \<lparr>timestamp = 0, position = 0, size_bytes = 20\<rparr>)],
             write_position = 20, file_handle = OpenFile []\<rparr>) \<and>
   init True (Some [0, 0, 0, 0, 1]) = Inl MalformedInputError"
  by (simp add: init_def init_key_dir.simps decode_header_def HEADER_SIZE_def
      is_cont_def cons_cp_def)

text \<open>
  C3: the engine at the input where it departs from the claim. The log of 15 bytes above,
  whose last record is cut short, is opened without error with the write position at 18.
  \<open>set("k", "v")\<close> returns and appends its record at offset 15, \<open>close()\<close> returns, and the
  fresh \<open>__init__\<close> on the same file raises: replay skips the 5 value bytes that the first
  header declares, lands 3 bytes inside the new record and reads a header of 11 bytes.
\<close>

theorem reopen_fails_after_truncated_log:
  "init True (Some [0, 0, 0, 0, 1, 0, 0, 0, 5, 0, 0, 0, 97, 1, 2]) =
     Inr ([0, 0, 0, 0, 1, 0, 0, 0, 5, 0, 0, 0, 97, 1, 2],
          \<lparr>key_dir = [([97], \<lparr>timestamp = 0, position = 0, size_bytes = 18\<rparr>)],
             write_position = 18, file_handle = OpenFile []\<rparr>) \<and>
   set_kv NoFault 10 [0, 0, 0, 0, 1, 0, 0, 0, 5, 0, 0, 0, 97, 1, 2]
     \<lparr>key_dir = [([97], \<lparr>timestamp = 0, position = 0, size_bytes = 18\<rparr>)],
        write_position = 18, file_handle = OpenFile []\<rparr> [107] [118] =
     (Inr (),
      [0, 0, 0, 0, 1, 0, 0, 0, 5, 0, 0, 0, 97, 1, 2,
       10, 0, 0, 0, 1, 0, 0, 0, 1, 0, 0, 0, 107, 118],
      \<lparr>key_dir = [([97], \<lparr>timestamp = 0, position = 0, size_bytes = 18\<rparr>),
                    ([107], \<lparr>timestamp = 10, position = 18, size_bytes = 14\<rparr>)],
         write_position = 32, file_handle = OpenFile []\<rparr>) \<and>
   close NoFault
     [0, 0, 0, 0, 1, 0, 0, 0, 5, 0, 0, 0, 97, 1, 2,
      10, 0, 0, 0, 1, 0, 0, 0, 1, 0, 0, 0, 107, 118]
     \<lparr>key_dir = [([97], \<lparr>timestamp = 0, position = 0, size_bytes = 18\<rparr>),
                   ([107], \<lparr>timestamp = 10, position = 18, size_bytes = 14\<rparr>)],
        write_position = 32, file_handle = OpenFile []\<rparr> =
     (Inr (),
      [0, 0, 0, 0, 1, 0, 0, 0, 5, 0, 0, 0, 97, 1, 2,
       10, 0, 0, 0, 1, 0, 0, 0, 1, 0, 0, 0, 107, 118],
      \<lparr>key_dir = [([97], \<lparr>timestamp = 0, position = 0, size_bytes = 18\<rparr>),
                    ([107], \<lparr>timestamp = 10, position = 18, size_bytes = 14\<rparr>)],
         write_position = 32, file_handle = ClosedFile\<rparr>) \<and>
   init True
     (Some [0, 0, 0, 0, 1, 0, 0, 0, 5, 0, 0, 0, 97, 1, 2,
            10, 0, 0, 0, 1, 0, 0, 0, 1, 0, 0, 0, 107, 118]) = Inl MalformedInputError"
proof (intro conjI)
  show "init True (Some [0, 0, 0, 0, 1, 0, 0, 0, 5, 0, 0, 0, 97, 1, 2]) =
     Inr ([0, 0, 0, 0, 1, 0, 0, 0, 5, 0, 0, 0, 97, 1, 2],
          \<lparr>key_dir = [([97], \<lparr>timestamp = 0, position = 0, size_bytes = 18\<rparr>)],
             write_position = 18, file_handle = OpenFile []\<rparr>)"
    by (simp add: init_def init_key_dir.simps decode_header_def HEADER_SIZE_def
        is_cont_def cons_cp_def)
  show "set_kv NoFault 10 [0, 0, 0, 0, 1, 0, 0, 0, 5, 0, 0, 0, 97, 1, 2]
     \<lparr>key_dir = [([97], \<lparr>timestamp = 0, position = 0, size_bytes = 18\<rparr>)],
        write_position = 18, file_handle = OpenFile []\<rparr> [107] [118] =
     (Inr (),
      [0, 0, 0, 0, 1, 0, 0, 0, 5, 0, 0, 0, 97, 1, 2,
       10, 0, 0, 0, 1, 0, 0, 0, 1, 0, 0, 0, 107, 118],
      \<lparr>key_dir = [([97], \<lparr>timestamp = 0, position = 0, size_bytes = 18\<rparr>),
                    ([107], \<lparr>timestamp = 10, position = 18, size_bytes = 14\<rparr>)],
         write_position = 32, file_handle = OpenFile []\<rparr>)"
    by (simp add: set_kv_def write_bytes_def file_write_def file_flush_def os_fsync_def
        encode_kv_def encode_cp_def to_byte_def encode_header_def in_u32_def u32_bytes_def
        HEADER_SIZE_def)
  show "close NoFault
     [0, 0, 0, 0, 1, 0, 0, 0, 5, 0, 0, 0, 97, 1, 2,
      10, 0, 0, 0, 1, 0, 0, 0, 1, 0, 0, 0, 107, 118]
     \<lparr>key_dir = [([97], \<lparr>timestamp = 0, position = 0, size_bytes = 18\<rparr>),
                   ([107], \<lparr>timestamp = 10, position = 18, size_bytes = 14\<rparr>)],
        write_position = 32, file_handle = OpenFile []\<rparr> =
     (Inr (),
      [0, 0, 0, 0, 1, 0, 0, 0, 5, 0, 0, 0, 97, 1, 2,
       10, 0, 0, 0, 1, 0, 0, 0, 1, 0, 0, 0, 107, 118],
      \<lparr>key_dir = [([97], \<lparr>timestamp = 0, position = 0, size_bytes = 18\<rparr>),
                    ([107], \<lparr>timestamp = 10, position = 18, size_bytes = 14\<rparr>)],
         write_position = 32, file_handle = ClosedFile\<rparr>)"
    by (simp add: close_def file_flush_def os_fsync_def)
  show "init True
     (Some [0, 0, 0, 0, 1, 0, 0, 0, 5, 0, 0, 0, 97, 1, 2,
            10, 0, 0, 0, 1, 0, 0, 0, 1, 0, 0, 0, 107, 118]) = Inl MalformedInputError"
    by (simp add: init_def init_key_dir.simps decode_header_def HEADER_SIZE_def
        is_cont_def cons_cp_def)
qed

end
